theory Spec2Isabelle
  imports Main "HOL-Library.AList" "HOL-Library.Sublist"
begin

section \<open>The message sequence generator (api.ts, getNextMsgSeq)\<close>

text \<open>
  \<open>msgSeqTracker\<close> is a JavaScript \<open>Map<string, number>\<close>. A \<open>Map\<close> iterates in
  insertion order, and the eviction sweep depends on that order, so the table is an
  association list in insertion order whose keys are pairwise distinct. The counters are
  small non-negative integers, on which JavaScript's numbers are exact; they are \<open>int\<close>.
\<close>

type_synonym seq_table = "(string \<times> int) list"

definition wf_table :: "seq_table \<Rightarrow> bool" where
  "wf_table tbl = distinct (map fst tbl)"

text \<open>\<open>Map.prototype.get\<close>: the stored value, or \<open>undefined\<close> (here \<open>None\<close>).\<close>

definition map_get :: "seq_table \<Rightarrow> string \<Rightarrow> int option" where
  "map_get tbl k = map_of tbl k"

text \<open>
  \<open>Map.prototype.set\<close>: a key that is present keeps its place and takes the new value, a
  new key goes to the end.
\<close>

definition map_set :: "seq_table \<Rightarrow> string \<Rightarrow> int \<Rightarrow> seq_table" where
  "map_set tbl k v = AList.update k v tbl"

text \<open>\<open>Map.prototype.delete\<close>, \<open>Map.prototype.keys\<close> and \<open>Map.prototype.size\<close>.\<close>

definition map_delete :: "seq_table \<Rightarrow> string \<Rightarrow> seq_table" where
  "map_delete tbl k = AList.delete k tbl"

definition map_keys :: "seq_table \<Rightarrow> string list" where
  "map_keys tbl = map fst tbl"

definition map_size :: "seq_table \<Rightarrow> nat" where
  "map_size tbl = length tbl"

text \<open>
  \<open>seqBaseTime = Math.floor(Date.now() / 1000) % 100000000\<close>, computed once when the module
  is loaded, from the clock reading \<open>now\<close> in milliseconds.
\<close>

definition seqBaseTime :: "int \<Rightarrow> int" where
  "seqBaseTime now = (now div 1000) mod 100000000"

text \<open>
  The loop \<open>for (let i = 0; i < 500; i++) msgSeqTracker.delete(keys[i])\<close> over the snapshot
  \<open>keys\<close>. An index past the end of the snapshot reads \<open>undefined\<close>, which is no key of the
  table: that \<open>delete\<close> removes nothing.
\<close>

function evict_loop :: "string list \<Rightarrow> nat \<Rightarrow> seq_table \<Rightarrow> seq_table" where
  "evict_loop keys i tbl =
     (if i < 500
      then evict_loop keys (i + 1) (if i < length keys then map_delete tbl (keys ! i) else tbl)
      else tbl)"
  by pat_completeness auto
termination
  by (relation "measure (\<lambda>(keys, i, tbl). 500 - i)") auto

declare evict_loop.simps [simp del]

text \<open>\<open>msgSeqTracker.get(msgId) ?? 0\<close>.\<close>

definition counter :: "seq_table \<Rightarrow> string \<Rightarrow> int" where
  "counter tbl msgId = (case map_get tbl msgId of None \<Rightarrow> 0 | Some v \<Rightarrow> v)"

text \<open>
  \<open>getNextMsgSeq\<close>: the value returned and the table it leaves. \<open>base\<close> is \<open>seqBaseTime\<close>.
\<close>

definition getNextMsgSeq :: "int \<Rightarrow> string \<Rightarrow> seq_table \<Rightarrow> int \<times> seq_table" where
  "getNextMsgSeq base msgId tbl =
     (let current = counter tbl msgId;
          next = current + 1;
          stored = map_set tbl msgId next;
          swept = (if map_size stored > 1000
                   then evict_loop (map_keys stored) 0 stored
                   else stored)
      in (base + next, swept))"

text \<open>
  Whether a call runs the sweep: the guard \<open>msgSeqTracker.size > 1000\<close> of line 80, on the
  table as the store of line 76 leaves it.
\<close>

definition sweep_due :: "string \<Rightarrow> seq_table \<Rightarrow> bool" where
  "sweep_due msgId tbl = (map_size (map_set tbl msgId (counter tbl msgId + 1)) > 1000)"

text \<open>
  A sequence of calls, one per key of the list, each on the table the previous one left:
  the values returned, and the final table.
\<close>

fun run_calls :: "int \<Rightarrow> string list \<Rightarrow> seq_table \<Rightarrow> int list \<times> seq_table" where
  "run_calls base [] tbl = ([], tbl)"
| "run_calls base (k # ks) tbl =
     (let (r, tbl1) = getNextMsgSeq base k tbl;
          (rs, tbl2) = run_calls base ks tbl1
      in (r # rs, tbl2))"

text \<open>The number of calls of the sequence in which the sweep ran.\<close>

fun count_sweeps :: "int \<Rightarrow> string list \<Rightarrow> seq_table \<Rightarrow> nat" where
  "count_sweeps base [] tbl = 0"
| "count_sweeps base (k # ks) tbl =
     (if sweep_due k tbl then 1 else 0) + count_sweeps base ks (snd (getNextMsgSeq base k tbl))"

text \<open>
  Call number \<open>i\<close> (from 0) of a sequence is the \<open>occurrence ks i\<close>-th call with its key.
\<close>

definition occurrence :: "string list \<Rightarrow> nat \<Rightarrow> nat" where
  "occurrence ks i = count_list (take (Suc i) ks) (ks ! i)"

text \<open>
  The call with key \<open>c\<close> on the table \<open>tbl\<close> evicts the key \<open>k\<close>: \<open>k\<close> was in the table, or
  is the key the call stores, and is not in the table the call leaves. No call of a
  sequence evicts \<open>k\<close>.
\<close>

definition evicts :: "int \<Rightarrow> string \<Rightarrow> seq_table \<Rightarrow> string \<Rightarrow> bool" where
  "evicts base c tbl k =
     ((k \<in> set (map_keys tbl) \<or> c = k)
      \<and> k \<notin> set (map_keys (snd (getNextMsgSeq base c tbl))))"

fun never_evicted :: "int \<Rightarrow> string list \<Rightarrow> seq_table \<Rightarrow> string \<Rightarrow> bool" where
  "never_evicted base [] tbl k = True"
| "never_evicted base (c # cs) tbl k =
     (\<not> evicts base c tbl k \<and> never_evicted base cs (snd (getNextMsgSeq base c tbl)) k)"

text \<open>A supply of pairwise distinct keys: \<open>m\<close>, \<open>mx\<close>, \<open>mxx\<close>, ...\<close>

definition key_of :: "nat \<Rightarrow> string" where
  "key_of n = CHR ''m'' # replicate n (CHR ''x'')"

definition fresh_keys :: "nat \<Rightarrow> string list" where
  "fresh_keys n = map key_of [0..<n]"

section \<open>The runtime seen by the module\<close>

text \<open>
  JSON values as far as the module builds them: the object literals passed to
  \<open>apiRequest\<close> hold strings, numbers, booleans and one nested object. A request body
  is kept as the value that \<open>JSON.stringify\<close> serialises, so that its fields can be read.
\<close>

datatype jval = JNull | JBool bool | JNum int | JStr string | JObj "(string \<times> jval) list"

text \<open>JavaScript truthiness, of a value and of an optional string parameter.\<close>

fun truthy :: "jval \<Rightarrow> bool" where
  "truthy JNull = False"
| "truthy (JBool b) = b"
| "truthy (JNum n) = (n \<noteq> 0)"
| "truthy (JStr s) = (s \<noteq> [])"
| "truthy (JObj fs) = True"

definition truthy_str :: "string option \<Rightarrow> bool" where
  "truthy_str s = (case s of None \<Rightarrow> False | Some v \<Rightarrow> v \<noteq> [])"

text \<open>Reading a property of an object: \<open>None\<close> is \<open>undefined\<close>.\<close>

fun field :: "jval \<Rightarrow> string \<Rightarrow> jval option" where
  "field (JObj fs) k = map_of fs k"
| "field v k = None"

text \<open>
  A value caught by \<open>catch (err)\<close>, and the text
  \<open>err instanceof Error ? err.message : String(err)\<close> taken from it.
\<close>

datatype thrown = ErrorObj string | NonError string

fun cause_text :: "thrown \<Rightarrow> string" where
  "cause_text (ErrorObj msg) = msg"
| "cause_text (NonError rendering) = rendering"

text \<open>
  What a call throws: \<open>new Error(message)\<close> at one of the module's throw sites, or the
  \<open>TypeError\<close> the engine raises when a property of \<open>null\<close> is read. The wording of that
  message is the engine's; the model keeps the name of the property.
\<close>

datatype js_error = Error string | TypeError string

record request =
  url :: string
  http_method :: string
  headers :: "(string \<times> string) list"
  body :: "jval option"

text \<open>
  What \<open>await fetch(...)\<close> and then \<open>await response.json()\<close> come to: the fetch is
  rejected, or it gives a response with its \<open>ok\<close> flag whose body parses or does not.
  A body that parses is \<open>null\<close>, of which no property can be read, or a value read at
  the type the source declares for it (a value that is no object reads as one that has
  none of the declared properties).
\<close>

datatype 'd json_value = JsonNull | JsonTyped 'd

datatype 'd parsed = Unparsable thrown | Parsed "'d json_value"

datatype 'd fetched = Rejected thrown | Responded bool "'d parsed"

text \<open>
  The collaborators a call depends on: the answer of the network to a request, and
  \<open>JSON.stringify\<close> on a parsed body. Every function below returns, last, the list of
  requests it has fetched, in order.
\<close>

record 'd runtime =
  fetch :: "request \<Rightarrow> 'd fetched"
  stringify :: "'d \<Rightarrow> string"

text \<open>A runtime in which every request gets the same answer (for closed examples).\<close>

definition fixed_reply :: "'d fetched \<Rightarrow> 'd runtime" where
  "fixed_reply r = \<lparr>fetch = (\<lambda>req. r), stringify = (\<lambda>d. ''<json>'')\<rparr>"

definition API_BASE :: string where
  "API_BASE = ''https://sandbox.api.sgroup.qq.com''"

definition TOKEN_URL :: string where
  "TOKEN_URL = ''https://bots.qq.com/app/getAppAccessToken''"

section \<open>The credential cache (api.ts, getAccessToken and clearTokenCache)\<close>

record cached_token =
  token :: string
  expiresAt :: int

text \<open>
  The declared type of the token endpoint's parsed answer. The record is extensible:
  whatever else the answer holds is its extension.
\<close>

record token_data =
  access_token :: "string option"
  expires_in :: "int option"

definition token_request :: "string \<Rightarrow> string \<Rightarrow> request" where
  "token_request appId clientSecret =
     \<lparr>url = TOKEN_URL, http_method = ''POST'',
      headers = [(''Content-Type'', ''application/json'')],
      body = Some (JObj [(''appId'', JStr appId), (''clientSecret'', JStr clientSecret)])\<rparr>"

text \<open>
  Lines 31 to 51, what the call does once the network has answered: the parse, the check
  of \<open>access_token\<close> and the store. \<open>cachedToken\<close> is the cache as it is when the call
  resumes and \<open>now_store\<close> the clock read at line 48. The result is the outcome and the
  cache left behind.
\<close>

definition getAccessToken_resume ::
  "'a token_data_scheme runtime \<Rightarrow> int \<Rightarrow> cached_token option \<Rightarrow> 'a token_data_scheme fetched
   \<Rightarrow> (js_error + string) \<times> cached_token option" where
  "getAccessToken_resume rt now_store cachedToken answer =
     (case answer of
        Rejected err \<Rightarrow>
          (Inl (Error (''Network error getting access_token: '' @ cause_text err)), cachedToken)
      | Responded ok parsed_body \<Rightarrow>
          (case parsed_body of
             Unparsable err \<Rightarrow>
               (Inl (Error (''Failed to parse access_token response: '' @ cause_text err)),
                cachedToken)
           | Parsed JsonNull \<Rightarrow> (Inl (TypeError ''access_token''), cachedToken)
           | Parsed (JsonTyped data) \<Rightarrow>
               (case (if truthy_str (access_token data) then access_token data else None) of
                  None \<Rightarrow>
                    (Inl (Error (''Failed to get access_token: '' @ stringify rt data)),
                     cachedToken)
                | Some t \<Rightarrow>
                    (let fresh = \<lparr>token = t,
                                  expiresAt = now_store
                                    + (case expires_in data of None \<Rightarrow> 7200 | Some e \<Rightarrow> e) * 1000\<rparr>
                     in (Inr (token fresh), Some fresh)))))"

text \<open>
  Lines 24 to 51 with nothing running in between: the request is fetched and the call
  resumes on the cache it started from. The result is the outcome, the cache left behind
  and the requests fetched.
\<close>

definition fetchToken ::
  "'a token_data_scheme runtime \<Rightarrow> int \<Rightarrow> cached_token option \<Rightarrow> string \<Rightarrow> string
   \<Rightarrow> (js_error + string) \<times> cached_token option \<times> request list" where
  "fetchToken rt now_store cachedToken appId clientSecret =
     (let req = token_request appId clientSecret;
          (outcome, cache') = getAccessToken_resume rt now_store cachedToken (fetch rt req)
      in (outcome, cache', [req]))"

text \<open>
  The condition of line 20, \<open>cachedToken && Date.now() < cachedToken.expiresAt - 5 * 60 * 1000\<close>.
\<close>

definition cache_usable :: "cached_token option \<Rightarrow> int \<Rightarrow> bool" where
  "cache_usable cachedToken now =
     (case cachedToken of None \<Rightarrow> False | Some c \<Rightarrow> now < expiresAt c - 5 * 60 * 1000)"

text \<open>\<open>getAccessToken\<close>; \<open>now_check\<close> is the clock read at line 20.\<close>

definition getAccessToken ::
  "'a token_data_scheme runtime \<Rightarrow> int \<Rightarrow> int \<Rightarrow> cached_token option \<Rightarrow> string \<Rightarrow> string
   \<Rightarrow> (js_error + string) \<times> cached_token option \<times> request list" where
  "getAccessToken rt now_check now_store cachedToken appId clientSecret =
     (case cachedToken of
        None \<Rightarrow> fetchToken rt now_store cachedToken appId clientSecret
      | Some c \<Rightarrow>
          if now_check < expiresAt c - 5 * 60 * 1000
          then (Inr (token c), cachedToken, [])
          else fetchToken rt now_store cachedToken appId clientSecret)"

text \<open>
  Lines 18 to 30, the part of \<open>getAccessToken\<close> that runs before the first \<open>await\<close>:
  the cached token is returned, or the request is issued and the call is suspended until
  the network answers. Other calls, \<open>clearTokenCache\<close> among them, may run before it
  resumes.
\<close>

definition getAccessToken_begin ::
  "int \<Rightarrow> cached_token option \<Rightarrow> string \<Rightarrow> string \<Rightarrow> string + request" where
  "getAccessToken_begin now_check cachedToken appId clientSecret =
     (case cachedToken of
        None \<Rightarrow> Inr (token_request appId clientSecret)
      | Some c \<Rightarrow>
          if now_check < expiresAt c - 5 * 60 * 1000
          then Inl (token c)
          else Inr (token_request appId clientSecret))"

definition clearTokenCache :: "cached_token option \<Rightarrow> cached_token option" where
  "clearTokenCache cachedToken = None"

section \<open>The request executor (api.ts, apiRequest)\<close>

text \<open>
  The fields the module reads from a parsed answer of the platform, at their declared
  types: \<open>message\<close> and \<open>code\<close> of an error body, \<open>file_info\<close> of an upload result. The
  record is extensible: whatever else the answer holds is its extension.
\<close>

record api_reply =
  message :: "string option"
  code :: "int option"
  file_info :: string

definition api_request_of :: "string \<Rightarrow> string \<Rightarrow> string \<Rightarrow> jval option \<Rightarrow> request" where
  "api_request_of accessToken meth path payload =
     \<lparr>url = API_BASE @ path, http_method = meth,
      headers = [(''Authorization'', ''QQBot '' @ accessToken),
                 (''Content-Type'', ''application/json'')],
      body = (case payload of None \<Rightarrow> None
              | Some b \<Rightarrow> if truthy b then Some b else None)\<rparr>"

definition apiRequest ::
  "'a api_reply_scheme runtime \<Rightarrow> string \<Rightarrow> string \<Rightarrow> string \<Rightarrow> jval option
   \<Rightarrow> (js_error + 'a api_reply_scheme json_value) \<times> request list" where
  "apiRequest rt accessToken meth path payload =
     (let req = api_request_of accessToken meth path payload in
      (case fetch rt req of
         Rejected err \<Rightarrow>
           Inl (Error (''Network error ['' @ path @ '']: '' @ cause_text err))
       | Responded ok parsed_body \<Rightarrow>
           (case parsed_body of
              Unparsable err \<Rightarrow>
                Inl (Error (''Failed to parse response ['' @ path @ '']: '' @ cause_text err))
            | Parsed data \<Rightarrow>
                if \<not> ok
                then (case data of
                        JsonNull \<Rightarrow> Inl (TypeError ''message'')
                      | JsonTyped error \<Rightarrow>
                          Inl (Error (''API Error ['' @ path @ '']: ''
                            @ (case message error of Some m \<Rightarrow> m
                               | None \<Rightarrow> stringify rt error))))
                else Inr data),
       [req]))"

text \<open>
  The three kinds of failure the specification names. The code throws plain \<open>Error\<close>
  objects; the kind of one is read off the text its throw site puts before the cause. A
  \<open>TypeError\<close> comes from none of the three throw sites and has no kind.
\<close>

datatype error_kind = TransportError | DecodeError | ApiError

definition error_kind_of :: "string \<Rightarrow> js_error \<Rightarrow> error_kind option" where
  "error_kind_of path e =
     (case e of
        Error msg \<Rightarrow>
          if prefix (''Network error ['' @ path @ '']: '') msg then Some TransportError
          else if prefix (''Failed to parse response ['' @ path @ '']: '') msg
          then Some DecodeError
          else if prefix (''API Error ['' @ path @ '']: '') msg then Some ApiError
          else None
      | TypeError property \<Rightarrow> None)"

text \<open>The kind of failure of an outcome; a returned body has none.\<close>

definition failure_kind :: "string \<Rightarrow> js_error + 'd \<Rightarrow> error_kind option" where
  "failure_kind path outcome = (case outcome of Inl e \<Rightarrow> error_kind_of path e | Inr d \<Rightarrow> None)"

section \<open>The message and media facade (api.ts, the send and upload operations)\<close>

text \<open>
  \<open>msgId ? getNextMsgSeq(msgId) : 1\<close>: the sequence number of a send and the table it
  leaves. An absent \<open>msgId\<close> and the empty string are both falsy.
\<close>

definition reply_seq :: "int \<Rightarrow> string option \<Rightarrow> seq_table \<Rightarrow> int \<times> seq_table" where
  "reply_seq base msgId tbl =
     (case (if truthy_str msgId then msgId else None) of
        None \<Rightarrow> (1, tbl)
      | Some m \<Rightarrow> getNextMsgSeq base m tbl)"

text \<open>The spreads \<open>...(msgId ? { msg_id: msgId } : {})\<close> and \<open>...(content ? { content } : {})\<close>.\<close>

definition msg_id_spread :: "string option \<Rightarrow> (string \<times> jval) list" where
  "msg_id_spread msgId =
     (case (if truthy_str msgId then msgId else None) of
        None \<Rightarrow> []
      | Some m \<Rightarrow> [(''msg_id'', JStr m)])"

definition content_spread :: "string option \<Rightarrow> (string \<times> jval) list" where
  "content_spread content =
     (case (if truthy_str content then content else None) of
        None \<Rightarrow> []
      | Some c \<Rightarrow> [(''content'', JStr c)])"

text \<open>The object literals of the text sends, of the channel send and of the media sends.\<close>

definition text_message_body :: "string \<Rightarrow> int \<Rightarrow> string option \<Rightarrow> jval" where
  "text_message_body content msgSeq msgId =
     JObj ([(''content'', JStr content), (''msg_type'', JNum 0), (''msg_seq'', JNum msgSeq)]
           @ msg_id_spread msgId)"

definition channel_message_body :: "string \<Rightarrow> string option \<Rightarrow> jval" where
  "channel_message_body content msgId = JObj ([(''content'', JStr content)] @ msg_id_spread msgId)"

definition media_message_body :: "string \<Rightarrow> int \<Rightarrow> string option \<Rightarrow> string option \<Rightarrow> jval" where
  "media_message_body fileInfo msgSeq content msgId =
     JObj ([(''msg_type'', JNum 7), (''media'', JObj [(''file_info'', JStr fileInfo)]),
            (''msg_seq'', JNum msgSeq)]
           @ content_spread content @ msg_id_spread msgId)"

definition proactive_message_body :: "string \<Rightarrow> jval" where
  "proactive_message_body content = JObj [(''content'', JStr content), (''msg_type'', JNum 0)]"

text \<open>
  The sends that number their messages take \<open>seqBaseTime\<close> and the sequence table, and
  return the outcome, the table left behind and the requests fetched.
\<close>

definition sendC2CMessage ::
  "'a api_reply_scheme runtime \<Rightarrow> int \<Rightarrow> seq_table \<Rightarrow> string \<Rightarrow> string \<Rightarrow> string
   \<Rightarrow> string option \<Rightarrow> (js_error + 'a api_reply_scheme json_value) \<times> seq_table \<times> request list" where
  "sendC2CMessage rt base tbl accessToken openid content msgId =
     (let (msgSeq, tbl') = reply_seq base msgId tbl;
          (res, reqs) = apiRequest rt accessToken ''POST'' (''/v2/users/'' @ openid @ ''/messages'')
             (Some (text_message_body content msgSeq msgId))
      in (res, tbl', reqs))"

definition sendChannelMessage ::
  "'a api_reply_scheme runtime \<Rightarrow> string \<Rightarrow> string \<Rightarrow> string \<Rightarrow> string option
   \<Rightarrow> (js_error + 'a api_reply_scheme json_value) \<times> request list" where
  "sendChannelMessage rt accessToken channelId content msgId =
     apiRequest rt accessToken ''POST'' (''/channels/'' @ channelId @ ''/messages'')
       (Some (channel_message_body content msgId))"

definition sendGroupMessage ::
  "'a api_reply_scheme runtime \<Rightarrow> int \<Rightarrow> seq_table \<Rightarrow> string \<Rightarrow> string \<Rightarrow> string
   \<Rightarrow> string option \<Rightarrow> (js_error + 'a api_reply_scheme json_value) \<times> seq_table \<times> request list" where
  "sendGroupMessage rt base tbl accessToken groupOpenid content msgId =
     (let (msgSeq, tbl') = reply_seq base msgId tbl;
          (res, reqs) = apiRequest rt accessToken ''POST''
             (''/v2/groups/'' @ groupOpenid @ ''/messages'')
             (Some (text_message_body content msgSeq msgId))
      in (res, tbl', reqs))"

definition sendProactiveC2CMessage ::
  "'a api_reply_scheme runtime \<Rightarrow> string \<Rightarrow> string \<Rightarrow> string
   \<Rightarrow> (js_error + 'a api_reply_scheme json_value) \<times> request list" where
  "sendProactiveC2CMessage rt accessToken openid content =
     apiRequest rt accessToken ''POST'' (''/v2/users/'' @ openid @ ''/messages'')
       (Some (proactive_message_body content))"

definition sendProactiveGroupMessage ::
  "'a api_reply_scheme runtime \<Rightarrow> string \<Rightarrow> string \<Rightarrow> string
   \<Rightarrow> (js_error + 'a api_reply_scheme json_value) \<times> request list" where
  "sendProactiveGroupMessage rt accessToken groupOpenid content =
     apiRequest rt accessToken ''POST'' (''/v2/groups/'' @ groupOpenid @ ''/messages'')
       (Some (proactive_message_body content))"

datatype MediaFileType = IMAGE | VIDEO | VOICE | FILE

fun media_file_type_value :: "MediaFileType \<Rightarrow> int" where
  "media_file_type_value IMAGE = 1"
| "media_file_type_value VIDEO = 2"
| "media_file_type_value VOICE = 3"
| "media_file_type_value FILE = 4"

definition upload_body :: "MediaFileType \<Rightarrow> string \<Rightarrow> bool \<Rightarrow> jval" where
  "upload_body fileType media_url srvSendMsg =
     JObj [(''file_type'', JNum (media_file_type_value fileType)), (''url'', JStr media_url),
           (''srv_send_msg'', JBool srvSendMsg)]"

definition uploadC2CMedia ::
  "'a api_reply_scheme runtime \<Rightarrow> string \<Rightarrow> string \<Rightarrow> MediaFileType \<Rightarrow> string \<Rightarrow> bool
   \<Rightarrow> (js_error + 'a api_reply_scheme json_value) \<times> request list" where
  "uploadC2CMedia rt accessToken openid fileType media_url srvSendMsg =
     apiRequest rt accessToken ''POST'' (''/v2/users/'' @ openid @ ''/files'')
       (Some (upload_body fileType media_url srvSendMsg))"

definition uploadGroupMedia ::
  "'a api_reply_scheme runtime \<Rightarrow> string \<Rightarrow> string \<Rightarrow> MediaFileType \<Rightarrow> string \<Rightarrow> bool
   \<Rightarrow> (js_error + 'a api_reply_scheme json_value) \<times> request list" where
  "uploadGroupMedia rt accessToken groupOpenid fileType media_url srvSendMsg =
     apiRequest rt accessToken ''POST'' (''/v2/groups/'' @ groupOpenid @ ''/files'')
       (Some (upload_body fileType media_url srvSendMsg))"

definition sendC2CMediaMessage ::
  "'a api_reply_scheme runtime \<Rightarrow> int \<Rightarrow> seq_table \<Rightarrow> string \<Rightarrow> string \<Rightarrow> string
   \<Rightarrow> string option \<Rightarrow> string option
   \<Rightarrow> (js_error + 'a api_reply_scheme json_value) \<times> seq_table \<times> request list" where
  "sendC2CMediaMessage rt base tbl accessToken openid fileInfo msgId content =
     (let (msgSeq, tbl') = reply_seq base msgId tbl;
          (res, reqs) = apiRequest rt accessToken ''POST'' (''/v2/users/'' @ openid @ ''/messages'')
             (Some (media_message_body fileInfo msgSeq content msgId))
      in (res, tbl', reqs))"

definition sendGroupMediaMessage ::
  "'a api_reply_scheme runtime \<Rightarrow> int \<Rightarrow> seq_table \<Rightarrow> string \<Rightarrow> string \<Rightarrow> string
   \<Rightarrow> string option \<Rightarrow> string option
   \<Rightarrow> (js_error + 'a api_reply_scheme json_value) \<times> seq_table \<times> request list" where
  "sendGroupMediaMessage rt base tbl accessToken groupOpenid fileInfo msgId content =
     (let (msgSeq, tbl') = reply_seq base msgId tbl;
          (res, reqs) = apiRequest rt accessToken ''POST''
             (''/v2/groups/'' @ groupOpenid @ ''/messages'')
             (Some (media_message_body fileInfo msgSeq content msgId))
      in (res, tbl', reqs))"

text \<open>
  Upload, then send. A failed upload is rethrown, and an upload result that is \<open>null\<close>
  makes the read of \<open>uploadResult.file_info\<close> throw, before the send is reached: the
  table is then as it was.
\<close>

definition sendC2CImageMessage ::
  "'a api_reply_scheme runtime \<Rightarrow> int \<Rightarrow> seq_table \<Rightarrow> string \<Rightarrow> string \<Rightarrow> string
   \<Rightarrow> string option \<Rightarrow> string option
   \<Rightarrow> (js_error + 'a api_reply_scheme json_value) \<times> seq_table \<times> request list" where
  "sendC2CImageMessage rt base tbl accessToken openid imageUrl msgId content =
     (case uploadC2CMedia rt accessToken openid IMAGE imageUrl False of
        (Inl e, reqs) \<Rightarrow> (Inl e, tbl, reqs)
      | (Inr JsonNull, reqs) \<Rightarrow> (Inl (TypeError ''file_info''), tbl, reqs)
      | (Inr (JsonTyped uploadResult), reqs) \<Rightarrow>
          (let (res, tbl', reqs') =
                 sendC2CMediaMessage rt base tbl accessToken openid (file_info uploadResult)
                   msgId content
           in (res, tbl', reqs @ reqs')))"

definition sendGroupImageMessage ::
  "'a api_reply_scheme runtime \<Rightarrow> int \<Rightarrow> seq_table \<Rightarrow> string \<Rightarrow> string \<Rightarrow> string
   \<Rightarrow> string option \<Rightarrow> string option
   \<Rightarrow> (js_error + 'a api_reply_scheme json_value) \<times> seq_table \<times> request list" where
  "sendGroupImageMessage rt base tbl accessToken groupOpenid imageUrl msgId content =
     (case uploadGroupMedia rt accessToken groupOpenid IMAGE imageUrl False of
        (Inl e, reqs) \<Rightarrow> (Inl e, tbl, reqs)
      | (Inr JsonNull, reqs) \<Rightarrow> (Inl (TypeError ''file_info''), tbl, reqs)
      | (Inr (JsonTyped uploadResult), reqs) \<Rightarrow>
          (let (res, tbl', reqs') =
                 sendGroupMediaMessage rt base tbl accessToken groupOpenid
                   (file_info uploadResult) msgId content
           in (res, tbl', reqs @ reqs')))"

text \<open>The field of a request's body, when the body is an object.\<close>

definition request_field :: "request \<Rightarrow> string \<Rightarrow> jval option" where
  "request_field req k = (case body req of None \<Rightarrow> None | Some b \<Rightarrow> field b k)"

text \<open>The field \<open>k\<close> of each request of a list of requests fetched.\<close>

definition sent_field :: "string \<Rightarrow> request list \<Rightarrow> jval option list" where
  "sent_field k reqs = map (\<lambda>req. request_field req k) reqs"

section \<open>Properties of the sequence generator\<close>

lemma evict_loop_filter:
  "i \<le> 500 \<Longrightarrow>
   evict_loop keys i tbl = filter (\<lambda>p. fst p \<notin> set (drop i (take 500 keys))) tbl"
proof (induction keys i tbl rule: evict_loop.induct)
  case (1 keys i tbl)
  show ?case
  proof (cases "i < 500")
    case False
    with "1.prems" have "i = 500" by simp
    then show ?thesis by (subst evict_loop.simps) simp
  next
    case True
    note lt = True
    have ih: "evict_loop keys (i + 1) (if i < length keys then map_delete tbl (keys ! i) else tbl)
      = filter (\<lambda>p. fst p \<notin> set (drop (i + 1) (take 500 keys)))
          (if i < length keys then map_delete tbl (keys ! i) else tbl)"
      using "1.IH" [OF lt] lt by simp
    show ?thesis
    proof (cases "i < length keys")
      case True
      then have d: "drop i (take 500 keys) = keys ! i # drop (i + 1) (take 500 keys)"
        using lt by (simp add: Cons_nth_drop_Suc [symmetric])
      show ?thesis
        using lt True ih
        by (subst evict_loop.simps) (auto simp: d map_delete_def AList.delete_eq intro: filter_cong)
    next
      case False
      then show ?thesis
        using lt ih by (subst evict_loop.simps) simp
    qed
  qed
qed

lemma filter_first_keys:
  "distinct (map fst (xs @ ys)) \<Longrightarrow> filter (\<lambda>p. fst p \<notin> fst ` set xs) (xs @ ys) = ys"
proof -
  assume d: "distinct (map fst (xs @ ys))"
  have a: "filter (\<lambda>p. fst p \<notin> fst ` set xs) xs = []"
    by (auto simp: filter_empty_conv)
  have b: "filter (\<lambda>p. fst p \<notin> fst ` set xs) ys = ys"
    using d by (auto simp: filter_id_conv)
  show ?thesis using a b by simp
qed

lemma evict_first_500:
  assumes "wf_table tbl"
  shows "evict_loop (map_keys tbl) 0 tbl = drop 500 tbl"
proof -
  have "evict_loop (map_keys tbl) 0 tbl
      = filter (\<lambda>p. fst p \<notin> fst ` set (take 500 tbl)) (take 500 tbl @ drop 500 tbl)"
  proof -
    have "set (drop 0 (take 500 (map_keys tbl))) = fst ` set (take 500 tbl)"
      by (simp add: map_keys_def take_map)
    then show ?thesis
      using evict_loop_filter [of 0 "map_keys tbl" tbl] by simp
  qed
  also have "\<dots> = drop 500 tbl"
    using assms by (intro filter_first_keys) (simp add: wf_table_def)
  finally show ?thesis .
qed

lemma map_size_set:
  "map_size (map_set tbl k v) = (if k \<in> fst ` set tbl then length tbl else Suc (length tbl))"
  unfolding map_size_def map_set_def by (induction tbl) auto

lemma map_get_set: "map_get (map_set tbl k v) k' = (if k' = k then Some v else map_get tbl k')"
  by (simp add: map_get_def map_set_def update_conv')

lemma wf_table_set: "wf_table tbl \<Longrightarrow> wf_table (map_set tbl k v)"
  by (simp add: wf_table_def map_set_def distinct_update)

lemma map_set_fresh: "k \<notin> fst ` set tbl \<Longrightarrow> map_set tbl k v = tbl @ [(k, v)]"
  unfolding map_set_def by (induction tbl) auto

lemma getNextMsgSeq_no_sweep:
  "\<not> sweep_due msgId tbl \<Longrightarrow>
   getNextMsgSeq base msgId tbl =
     (base + (counter tbl msgId + 1), map_set tbl msgId (counter tbl msgId + 1))"
  by (simp add: getNextMsgSeq_def sweep_due_def Let_def)

lemma getNextMsgSeq_sweep:
  "wf_table tbl \<Longrightarrow> sweep_due msgId tbl \<Longrightarrow>
   getNextMsgSeq base msgId tbl =
     (base + (counter tbl msgId + 1), drop 500 (map_set tbl msgId (counter tbl msgId + 1)))"
  by (simp add: getNextMsgSeq_def sweep_due_def Let_def evict_first_500 wf_table_set)


lemma wf_table_size: "wf_table tbl \<Longrightarrow> map_size tbl = card (fst ` set tbl)"
  unfolding wf_table_def map_size_def using distinct_card [of "map fst tbl"] by simp

lemma keys_map_set: "fst ` set (map_set tbl k v) = insert k (fst ` set tbl)"
  by (simp add: map_set_def dom_update)

lemma counter_map_set:
  "counter (map_set tbl k v) k' = (if k' = k then v else counter tbl k')"
  by (simp add: counter_def map_get_set)

lemma counter_fresh: "k \<notin> fst ` set tbl \<Longrightarrow> counter tbl k = 0"
  by (simp add: counter_def map_get_def map_of_eq_None_iff [THEN iffD2])

lemma fst_getNextMsgSeq: "fst (getNextMsgSeq base msgId tbl) = base + (counter tbl msgId + 1)"
  by (simp add: getNextMsgSeq_def Let_def)

lemma wf_table_drop: "wf_table tbl \<Longrightarrow> wf_table (drop n tbl)"
  by (simp add: wf_table_def drop_map [symmetric] distinct_drop)

lemma wf_getNextMsgSeq: "wf_table tbl \<Longrightarrow> wf_table (snd (getNextMsgSeq base msgId tbl))"
  by (cases "sweep_due msgId tbl")
     (simp_all add: getNextMsgSeq_sweep getNextMsgSeq_no_sweep wf_table_set wf_table_drop)

lemma sweep_due_fresh_full:
  assumes "map_size tbl \<le> 1000" "sweep_due msgId tbl"
  shows "msgId \<notin> fst ` set tbl \<and> length tbl = 1000"
proof -
  have gt: "(if msgId \<in> fst ` set tbl then length tbl else Suc (length tbl)) > 1000"
    using assms(2) by (simp add: sweep_due_def map_size_set)
  have le: "length tbl \<le> 1000"
    using assms(1) by (simp add: map_size_def)
  show ?thesis
    using gt le by (cases "msgId \<in> fst ` set tbl") simp_all
qed

text \<open>
  C9. A call on a well-formed table of at most 1000 keys leaves a well-formed table of at
  most 1000 keys in which the key of the call is present, and the counter stored for it
  is the value returned minus \<open>base\<close>. A sweep runs only when the call has just
  appended its key as entry 1001, so the key of the call is never among the 500 evicted.
\<close>

theorem getNextMsgSeq_invariant:
  assumes wf: "wf_table tbl" and sz: "map_size tbl \<le> 1000"
  shows "wf_table (snd (getNextMsgSeq base msgId tbl))
       \<and> map_size (snd (getNextMsgSeq base msgId tbl)) \<le> 1000
       \<and> map_get (snd (getNextMsgSeq base msgId tbl)) msgId
           = Some (fst (getNextMsgSeq base msgId tbl) - base)"
proof (cases "sweep_due msgId tbl")
  case False
  then have "map_size (map_set tbl msgId (counter tbl msgId + 1)) \<le> 1000"
    by (simp add: sweep_due_def)
  then show ?thesis
    using False wf by (simp add: getNextMsgSeq_no_sweep wf_table_set map_get_set)
next
  case True
  from sweep_due_fresh_full [OF sz True]
  have fresh: "msgId \<notin> fst ` set tbl" and len: "length tbl = 1000" by simp_all
  let ?v = "counter tbl msgId + 1"
  have tbl': "snd (getNextMsgSeq base msgId tbl) = drop 500 tbl @ [(msgId, ?v)]"
    using wf True fresh len by (simp add: getNextMsgSeq_sweep map_set_fresh)
  have "msgId \<notin> fst ` set (drop 500 tbl)"
    using fresh by (auto dest: in_set_dropD)
  then have "map_of (drop 500 tbl @ [(msgId, ?v)]) msgId = Some ?v"
    by (simp add: map_of_eq_None_iff [THEN iffD2] map_add_def)
  moreover have "wf_table (snd (getNextMsgSeq base msgId tbl))"
    using wf by (rule wf_getNextMsgSeq)
  ultimately show ?thesis
    using len by (simp add: tbl' map_size_def map_get_def fst_getNextMsgSeq)
qed

theorem getNextMsgSeq_invariant_witness:
  "wf_table [(''m1'', 2)] \<and> map_size [(''m1'', 2)] \<le> 1000
   \<and> wf_table (snd (getNextMsgSeq 100 ''m1'' [(''m1'', 2)]))
   \<and> map_size (snd (getNextMsgSeq 100 ''m1'' [(''m1'', 2)])) \<le> 1000
   \<and> map_get (snd (getNextMsgSeq 100 ''m1'' [(''m1'', 2)])) ''m1''
       = Some (fst (getNextMsgSeq 100 ''m1'' [(''m1'', 2)]) - 100)"
proof -
  have wf: "wf_table [(''m1'', 2)]" by (simp add: wf_table_def)
  have sz: "map_size [(''m1'', 2)] \<le> 1000" by (simp add: map_size_def)
  show ?thesis
    using wf sz getNextMsgSeq_invariant [OF wf sz, of 100 "''m1''"] by simp
qed


lemma run_calls_append:
  "run_calls base (xs @ ys) tbl =
     (fst (run_calls base xs tbl) @ fst (run_calls base ys (snd (run_calls base xs tbl))),
      snd (run_calls base ys (snd (run_calls base xs tbl))))"
  by (induction xs arbitrary: tbl) (simp_all add: split_beta Let_def)

lemma count_sweeps_append:
  "count_sweeps base (xs @ ys) tbl =
     count_sweeps base xs tbl + count_sweeps base ys (snd (run_calls base xs tbl))"
  by (induction xs arbitrary: tbl) (simp_all add: split_beta Let_def)

lemma length_run_calls: "length (fst (run_calls base ks tbl)) = length ks"
  by (induction ks arbitrary: tbl) (simp_all add: split_beta Let_def)

lemma no_sweep_small:
  assumes wf: "wf_table tbl" and c: "card (insert k (fst ` set tbl)) \<le> 1000"
  shows "\<not> sweep_due k tbl"
proof -
  have "map_size (map_set tbl k (counter tbl k + 1)) = card (insert k (fst ` set tbl))"
    using wf by (simp add: wf_table_size wf_table_set keys_map_set)
  then show ?thesis using c by (simp add: sweep_due_def)
qed

lemma run_calls_nth_no_sweep:
  "wf_table tbl \<Longrightarrow> card (fst ` set tbl \<union> set ks) \<le> 1000 \<Longrightarrow> i < length ks \<Longrightarrow>
   fst (run_calls base ks tbl) ! i = base + (counter tbl (ks ! i) + int (occurrence ks i))"
proof (induction ks arbitrary: tbl i)
  case Nil
  then show ?case by simp
next
  case (Cons k ks)
  have fin: "finite (fst ` set tbl \<union> set (k # ks))" by simp
  have "card (insert k (fst ` set tbl)) \<le> card (fst ` set tbl \<union> set (k # ks))"
    by (rule card_mono [OF fin]) auto
  with Cons.prems have ns: "\<not> sweep_due k tbl"
    by (intro no_sweep_small) simp_all
  let ?t = "map_set tbl k (counter tbl k + 1)"
  have step: "getNextMsgSeq base k tbl = (base + (counter tbl k + 1), ?t)"
    using ns by (rule getNextMsgSeq_no_sweep)
  show ?case
  proof (cases i)
    case 0
    then show ?thesis by (simp add: step occurrence_def split_beta)
  next
    case (Suc j)
    have wf': "wf_table ?t" using Cons.prems(1) by (rule wf_table_set)
    have "fst ` set ?t \<union> set ks = fst ` set tbl \<union> set (k # ks)"
      by (auto simp: keys_map_set)
    then have c': "card (fst ` set ?t \<union> set ks) \<le> 1000"
      using Cons.prems(2) by simp
    have j: "j < length ks" using Cons.prems(3) Suc by simp
    have ih: "fst (run_calls base ks ?t) ! j
        = base + (counter ?t (ks ! j) + int (occurrence ks j))"
      using Cons.IH [OF wf' c' j] .
    show ?thesis
      using Suc ih by (simp add: step occurrence_def split_beta counter_map_set)
  qed
qed

lemma run_calls_fresh:
  "distinct (map fst tbl @ ks) \<Longrightarrow> length tbl + length ks \<le> 1000 \<Longrightarrow>
   run_calls base ks tbl = (map (\<lambda>k. base + 1) ks, tbl @ map (\<lambda>k. (k, 1)) ks)
   \<and> count_sweeps base ks tbl = 0"
proof (induction ks arbitrary: tbl)
  case Nil
  then show ?case by simp
next
  case (Cons k ks)
  have fresh: "k \<notin> fst ` set tbl" using Cons.prems(1) by auto
  then have c0: "counter tbl k = 0" by (rule counter_fresh)
  have st: "map_set tbl k 1 = tbl @ [(k, 1)]" using fresh by (rule map_set_fresh)
  have ns: "\<not> sweep_due k tbl"
    using Cons.prems(2) fresh by (simp add: sweep_due_def c0 map_size_set)
  have step: "getNextMsgSeq base k tbl = (base + 1, tbl @ [(k, 1)])"
    using getNextMsgSeq_no_sweep [OF ns, of base] by (simp add: c0 st)
  have d': "distinct (map fst (tbl @ [(k, 1)]) @ ks)" using Cons.prems(1) by auto
  have l': "length (tbl @ [(k, 1)]) + length ks \<le> 1000" using Cons.prems(2) by simp
  from Cons.IH [OF d' l'] show ?case
    by (simp add: step ns)
qed

lemma getNextMsgSeq_fresh_full:
  assumes d: "distinct (map fst tbl @ [k])" and len: "length tbl = 1000"
  shows "getNextMsgSeq base k tbl = (base + 1, drop 500 tbl @ [(k, 1)]) \<and> sweep_due k tbl"
proof -
  have fresh: "k \<notin> fst ` set tbl" using d by auto
  then have c0: "counter tbl k = 0" by (rule counter_fresh)
  have st: "map_set tbl k 1 = tbl @ [(k, 1)]" using fresh by (rule map_set_fresh)
  have sd: "sweep_due k tbl"
    using len fresh by (simp add: sweep_due_def c0 map_size_set)
  have wf: "wf_table tbl" using d by (simp add: wf_table_def)
  show ?thesis
    using getNextMsgSeq_sweep [OF wf sd, of base] sd len by (simp add: c0 st)
qed


lemma run_calls_one_sweep:
  assumes d: "distinct ks" and lo: "1000 < length ks" and hi: "length ks \<le> 1500"
  shows "snd (run_calls base ks []) = map (\<lambda>k. (k, 1)) (drop 500 ks)
       \<and> count_sweeps base ks [] = 1"
proof -
  let ?f = "\<lambda>k::string. (k, 1::int)"
  let ?xs = "take 1000 ks" and ?k = "ks ! 1000" and ?ys = "drop 1001 ks"
  have split: "ks = ?xs @ ?k # ?ys"
    using id_take_nth_drop [OF lo] by simp
  have dx: "distinct (?xs @ ?k # ?ys)" using d split by simp
  have lx: "length ?xs = 1000" using lo by simp
  have ly: "length ?ys \<le> 499" using hi by simp
  have p1: "run_calls base ?xs [] = (map (\<lambda>k. base + 1) ?xs, map ?f ?xs)
          \<and> count_sweeps base ?xs [] = 0"
    using run_calls_fresh [of "[]" ?xs base] dx lx by simp
  have fst_f: "map fst (map ?f zs) = zs" for zs by (simp add: comp_def)
  have d2: "distinct (map fst (map ?f ?xs) @ [?k])"
    unfolding fst_f using dx by simp
  have p2: "getNextMsgSeq base ?k (map ?f ?xs) = (base + 1, drop 500 (map ?f ?xs) @ [?f ?k])
          \<and> sweep_due ?k (map ?f ?xs)"
    using getNextMsgSeq_fresh_full [OF d2, of base] lx by simp
  let ?t2 = "map ?f (drop 500 ?xs @ [?k])"
  have t2: "drop 500 (map ?f ?xs) @ [?f ?k] = ?t2" by (simp add: drop_map)
  have "set (drop 500 ?xs) \<subseteq> set ?xs" by (rule set_drop_subset)
  then have d3: "distinct (map fst ?t2 @ ?ys)"
    unfolding fst_f using dx by (auto simp: distinct_drop)
  have l3: "length ?t2 + length ?ys \<le> 1000" using lx ly by simp
  have p3: "run_calls base ?ys ?t2 = (map (\<lambda>k. base + 1) ?ys, ?t2 @ map ?f ?ys)
          \<and> count_sweeps base ?ys ?t2 = 0"
    using run_calls_fresh [OF d3 l3] .
  have dr: "drop 500 ks = drop 500 ?xs @ ?k # ?ys"
    using lx by (subst split) simp
  have r1: "run_calls base (?k # ?ys) (map ?f ?xs)
      = ((base + 1) # map (\<lambda>k. base + 1) ?ys, ?t2 @ map ?f ?ys)"
    using p2 p3 by (simp add: t2)
  have c1: "count_sweeps base (?k # ?ys) (map ?f ?xs) = 1"
    using p2 p3 by (simp add: t2)
  have "snd (run_calls base (?xs @ ?k # ?ys) []) = ?t2 @ map ?f ?ys"
    using p1 r1 by (simp add: run_calls_append)
  moreover have "count_sweeps base (?xs @ ?k # ?ys) [] = 1"
    using p1 c1 by (simp add: count_sweeps_append)
  moreover have "?t2 @ map ?f ?ys = map ?f (drop 500 ks)"
    by (subst dr) simp
  ultimately show ?thesis using split by simp
qed

lemma key_of_inj: "inj key_of"
proof (rule injI)
  fix a b assume "key_of a = key_of b"
  then have "length (key_of a) = length (key_of b)" by simp
  then show "a = b" by (simp add: key_of_def)
qed

lemma distinct_fresh_keys: "distinct (fresh_keys n)"
  unfolding fresh_keys_def by (simp add: distinct_map inj_on_subset [OF key_of_inj])

lemma length_fresh_keys: "length (fresh_keys n) = n"
  by (simp add: fresh_keys_def)

lemma fresh_keys_Suc: "fresh_keys (Suc n) = fresh_keys n @ [key_of n]"
  by (simp add: fresh_keys_def)

lemma set_fresh_keys: "set (fresh_keys n) = key_of ` {0..<n}"
  by (simp add: fresh_keys_def)

lemma drop_fresh_keys: "set (drop m (fresh_keys n)) = key_of ` {m..<n}"
  by (simp add: fresh_keys_def drop_map)

lemma key_of_mem: "key_of a \<in> key_of ` S \<longleftrightarrow> a \<in> S"
  using key_of_inj by (auto dest: injD)


lemma count_list_distinct: "distinct xs \<Longrightarrow> x \<in> set xs \<Longrightarrow> count_list xs x = 1"
  by (induction xs) auto

lemma take_fresh_keys: "m \<le> n \<Longrightarrow> take m (fresh_keys n) = fresh_keys m"
  by (simp add: fresh_keys_def take_map)

lemma set_map_keys: "set (map_keys tbl) = fst ` set tbl"
  by (simp add: map_keys_def)

lemma keys_after_call:
  "fst ` set (snd (getNextMsgSeq base c tbl)) \<subseteq> insert c (fst ` set tbl)"
proof -
  let ?stored = "map_set tbl c (counter tbl c + 1)"
  have "set (evict_loop (map_keys ?stored) 0 ?stored) \<subseteq> set ?stored"
    using evict_loop_filter [of 0 "map_keys ?stored" ?stored] by simp
  then have "fst ` set (snd (getNextMsgSeq base c tbl)) \<subseteq> fst ` set ?stored"
    by (auto simp: getNextMsgSeq_def Let_def)
  then show ?thesis by (simp add: keys_map_set)
qed

lemma map_of_drop_distinct:
  assumes "distinct (map fst xs)" and "k \<in> fst ` set (drop n xs)"
  shows "map_of (drop n xs) k = map_of xs k"
proof -
  have "distinct (map fst (take n xs @ drop n xs))" using assms(1) by simp
  then have "k \<notin> fst ` set (take n xs)"
    using assms(2) by (simp only: map_append distinct_append set_map) blast
  then have none: "map_of (take n xs) k = None" by (simp add: map_of_eq_None_iff)
  have "map_of xs k = map_of (take n xs @ drop n xs) k" by simp
  also have "\<dots> = (map_of (drop n xs) ++ map_of (take n xs)) k"
    by (simp only: map_of_append)
  also have "\<dots> = map_of (drop n xs) k"
    using none by (simp add: map_add_def)
  finally show ?thesis by simp
qed

lemma table_after_call:
  "wf_table tbl \<Longrightarrow>
   snd (getNextMsgSeq base c tbl) = map_set tbl c (counter tbl c + 1)
   \<or> snd (getNextMsgSeq base c tbl) = drop 500 (map_set tbl c (counter tbl c + 1))"
  by (cases "sweep_due c tbl") (simp_all add: getNextMsgSeq_sweep getNextMsgSeq_no_sweep)

lemma map_get_after_call:
  assumes wf: "wf_table tbl" and k: "k \<in> fst ` set (snd (getNextMsgSeq base c tbl))"
  shows "map_get (snd (getNextMsgSeq base c tbl)) k
         = map_get (map_set tbl c (counter tbl c + 1)) k"
proof -
  let ?stored = "map_set tbl c (counter tbl c + 1)"
  have d: "distinct (map fst ?stored)" using wf_table_set [OF wf] by (simp add: wf_table_def)
  from table_after_call [OF wf, of base c] show ?thesis
  proof
    assume "snd (getNextMsgSeq base c tbl) = ?stored"
    then show ?thesis by simp
  next
    assume e: "snd (getNextMsgSeq base c tbl) = drop 500 ?stored"
    with k have "k \<in> fst ` set (drop 500 ?stored)" by simp
    from map_of_drop_distinct [OF d this] show ?thesis by (simp add: e map_get_def)
  qed
qed

lemma counter_other_key:
  assumes "wf_table tbl" and "c \<noteq> k" and "k \<in> fst ` set (snd (getNextMsgSeq base c tbl))"
  shows "counter (snd (getNextMsgSeq base c tbl)) k = counter tbl k"
  using map_get_after_call [OF assms(1,3)] assms(2) by (simp add: counter_def map_get_set)

lemma counter_own_key:
  assumes "wf_table tbl" and "k \<in> fst ` set (snd (getNextMsgSeq base k tbl))"
  shows "counter (snd (getNextMsgSeq base k tbl)) k = counter tbl k + 1"
  using map_get_after_call [OF assms] by (simp add: counter_def map_get_set)

lemma wf_run_calls: "wf_table tbl \<Longrightarrow> wf_table (snd (run_calls base cs tbl))"
  by (induction cs arbitrary: tbl) (simp_all add: split_beta wf_getNextMsgSeq)

lemma absent_stays_absent:
  "k \<notin> fst ` set tbl \<Longrightarrow> k \<notin> set cs \<Longrightarrow> k \<notin> fst ` set (snd (run_calls base cs tbl))"
proof (induction cs arbitrary: tbl)
  case Nil
  then show ?case by simp
next
  case (Cons c cs)
  have "k \<notin> fst ` set (snd (getNextMsgSeq base c tbl))"
    using keys_after_call [of base c tbl] Cons.prems by auto
  then show ?case using Cons.IH Cons.prems(2) by (simp add: split_beta)
qed

lemma counter_kept_by_others:
  "wf_table tbl \<Longrightarrow> k \<notin> set mid \<Longrightarrow> k \<in> fst ` set (snd (run_calls base mid tbl)) \<Longrightarrow>
   counter (snd (run_calls base mid tbl)) k = counter tbl k"
proof (induction mid arbitrary: tbl)
  case Nil
  then show ?case by simp
next
  case (Cons c mid)
  let ?t = "snd (getNextMsgSeq base c tbl)"
  have ck: "c \<noteq> k" and km: "k \<notin> set mid" using Cons.prems(2) by auto
  have fin: "k \<in> fst ` set (snd (run_calls base mid ?t))"
    using Cons.prems(3) by (simp add: split_beta)
  have kt: "k \<in> fst ` set ?t"
    using absent_stays_absent [of k ?t mid base] km fin by blast
  have "counter (snd (run_calls base mid ?t)) k = counter ?t k"
    using Cons.IH [OF wf_getNextMsgSeq [OF Cons.prems(1)] km fin] .
  also have "\<dots> = counter tbl k"
    using counter_other_key [OF Cons.prems(1) ck kt] .
  finally show ?case by (simp add: split_beta)
qed

lemma back_to_back:
  assumes wf: "wf_table tbl" and km: "k \<notin> set mid"
    and kin: "k \<in> fst ` set (snd (run_calls base (k # mid) tbl))"
  shows "fst (getNextMsgSeq base k (snd (run_calls base (k # mid) tbl)))
         = fst (getNextMsgSeq base k tbl) + 1"
proof -
  let ?t = "snd (getNextMsgSeq base k tbl)"
  have fin: "k \<in> fst ` set (snd (run_calls base mid ?t))"
    using kin by (simp add: split_beta)
  have kt: "k \<in> fst ` set ?t"
    using absent_stays_absent [of k ?t mid base] km fin by blast
  have "counter (snd (run_calls base mid ?t)) k = counter ?t k"
    using counter_kept_by_others [OF wf_getNextMsgSeq [OF wf] km fin] .
  also have "\<dots> = counter tbl k + 1"
    using counter_own_key [OF wf kt] .
  finally show ?thesis by (simp add: fst_getNextMsgSeq split_beta)
qed

lemma counter_never_evicted:
  "wf_table tbl \<Longrightarrow> never_evicted base cs tbl k \<Longrightarrow>
   counter (snd (run_calls base cs tbl)) k = counter tbl k + int (count_list cs k)"
proof (induction cs arbitrary: tbl)
  case Nil
  then show ?case by simp
next
  case (Cons c cs)
  let ?t = "snd (getNextMsgSeq base c tbl)"
  have ne: "\<not> evicts base c tbl k" and rest: "never_evicted base cs ?t k"
    using Cons.prems(2) by simp_all
  have ih: "counter (snd (run_calls base cs ?t)) k = counter ?t k + int (count_list cs k)"
    using Cons.IH [OF wf_getNextMsgSeq [OF Cons.prems(1)] rest] .
  have step: "counter ?t k = counter tbl k + (if c = k then 1 else 0)"
  proof (cases "c = k")
    case True
    then have "k \<in> fst ` set (snd (getNextMsgSeq base k tbl))"
      using ne by (simp add: evicts_def set_map_keys)
    then show ?thesis using counter_own_key [OF Cons.prems(1)] True by simp
  next
    case False
    show ?thesis
    proof (cases "k \<in> fst ` set tbl")
      case True
      then have "k \<in> fst ` set ?t" using ne by (simp add: evicts_def set_map_keys)
      then show ?thesis using counter_other_key [OF Cons.prems(1) False] False by simp
    next
      case absent: False
      then have "k \<notin> fst ` set ?t" using keys_after_call [of base c tbl] False by auto
      then show ?thesis using absent False by (simp add: counter_fresh)
    qed
  qed
  show ?case using ih step by (simp add: split_beta)
qed

lemma run_calls_nth:
  assumes "i < length ks"
  shows "fst (run_calls base ks tbl) ! i
         = fst (getNextMsgSeq base (ks ! i) (snd (run_calls base (take i ks) tbl)))"
proof -
  have ks: "ks = take i ks @ ks ! i # drop (Suc i) ks"
    using id_take_nth_drop [OF assms] .
  have len: "length (fst (run_calls base (take i ks) tbl)) = i"
    using assms by (simp add: length_run_calls)
  have "fst (run_calls base (take i ks @ ks ! i # drop (Suc i) ks) tbl) ! i
      = fst (getNextMsgSeq base (ks ! i) (snd (run_calls base (take i ks) tbl)))"
    by (simp add: run_calls_append nth_append len split_beta)
  then show ?thesis using ks by simp
qed

lemma nth_never_evicted:
  assumes wf: "wf_table tbl" and i: "i < length ks"
    and ne: "never_evicted base (take i ks) tbl (ks ! i)"
  shows "fst (run_calls base ks tbl) ! i
         = base + (counter tbl (ks ! i) + int (occurrence ks i))"
proof -
  have "occurrence ks i = count_list (take i ks) (ks ! i) + 1"
    using i by (simp add: occurrence_def take_Suc_conv_app_nth)
  then show ?thesis
    using counter_never_evicted [OF wf ne]
    by (simp add: run_calls_nth [OF i] fst_getNextMsgSeq)
qed

lemma never_evicted_absent:
  "k \<notin> fst ` set tbl \<Longrightarrow> k \<notin> set cs \<Longrightarrow> never_evicted base cs tbl k"
proof (induction cs arbitrary: tbl)
  case Nil
  then show ?case by simp
next
  case (Cons c cs)
  have "k \<notin> fst ` set (snd (getNextMsgSeq base c tbl))"
    using keys_after_call [of base c tbl] Cons.prems by auto
  then show ?case using Cons by (auto simp: evicts_def set_map_keys)
qed

lemma never_evicted_append:
  "never_evicted base (xs @ ys) tbl k
   = (never_evicted base xs tbl k \<and> never_evicted base ys (snd (run_calls base xs tbl)) k)"
  by (induction xs arbitrary: tbl) (simp_all add: split_beta)

lemma never_evicted_few_keys:
  "wf_table tbl \<Longrightarrow> card (fst ` set tbl \<union> set cs) \<le> 1000 \<Longrightarrow> never_evicted base cs tbl k"
proof (induction cs arbitrary: tbl)
  case Nil
  then show ?case by simp
next
  case (Cons c cs)
  have fin: "finite (fst ` set tbl \<union> set (c # cs))" by simp
  have "card (insert c (fst ` set tbl)) \<le> card (fst ` set tbl \<union> set (c # cs))"
    by (rule card_mono [OF fin]) auto
  with Cons.prems have ns: "\<not> sweep_due c tbl"
    by (intro no_sweep_small) simp_all
  let ?t = "map_set tbl c (counter tbl c + 1)"
  have step: "snd (getNextMsgSeq base c tbl) = ?t"
    using getNextMsgSeq_no_sweep [OF ns, of base] by simp
  have "fst ` set ?t \<union> set cs = fst ` set tbl \<union> set (c # cs)"
    by (auto simp: keys_map_set)
  then have "never_evicted base cs ?t k"
    using Cons.IH [OF wf_table_set [OF Cons.prems(1)]] Cons.prems(2) by simp
  moreover have "\<not> evicts base c tbl k"
    by (auto simp: evicts_def step set_map_keys keys_map_set)
  ultimately show ?case by (simp add: step)
qed

text \<open>
  C1 (as amended). From every well-formed table, and so from every table the module
  reaches, the values returned for a key advance by exactly 1 from \<open>base + 1\<close>, with the
  eviction of the key as the only exception:
  \<^item> a call with a key that is not in the table (never used, or evicted since its last
    call) returns \<open>base + 1\<close>, after any calls;
  \<^item> a call with the key, calls with other keys, and a call with the key again: when the
    key is still in the table the second call returns 1 more than the first;
  \<^item> in a sequence of calls none of which evicts the key, the n-th call with the key
    returns \<open>base\<close>, plus the counter the table held for it at the start, plus \<open>n\<close>;
    from the empty table that is \<open>base + n\<close>;
  \<^item> no call of a sequence that keeps the table to at most 1000 distinct keys evicts
    any key, so there the n-th call with a key returns \<open>base + n\<close>.
\<close>

theorem nth_call_returns_base_plus_n:
  assumes "wf_table tbl"
  shows "(k \<notin> set (map_keys (snd (run_calls base cs tbl))) \<longrightarrow>
            fst (getNextMsgSeq base k (snd (run_calls base cs tbl))) = base + 1)
       \<and> (k \<notin> set mid \<and> k \<in> set (map_keys (snd (run_calls base (k # mid) tbl))) \<longrightarrow>
            fst (getNextMsgSeq base k (snd (run_calls base (k # mid) tbl)))
              = fst (getNextMsgSeq base k tbl) + 1)
       \<and> (i < length ks \<and> never_evicted base (take i ks) tbl (ks ! i) \<longrightarrow>
            fst (run_calls base ks tbl) ! i
              = base + (counter tbl (ks ! i) + int (occurrence ks i)))
       \<and> (i < length ks \<and> never_evicted base (take i ks) [] (ks ! i) \<longrightarrow>
            fst (run_calls base ks []) ! i = base + int (occurrence ks i))
       \<and> (card (set (map_keys tbl) \<union> set ks) \<le> 1000 \<longrightarrow>
            never_evicted base ks tbl k)
       \<and> (i < length ks \<and> card (set ks) \<le> 1000 \<longrightarrow>
            fst (run_calls base ks []) ! i = base + int (occurrence ks i))"
proof (intro conjI impI)
  assume "k \<notin> set (map_keys (snd (run_calls base cs tbl)))"
  then have "counter (snd (run_calls base cs tbl)) k = 0"
    by (simp add: set_map_keys counter_fresh)
  then show "fst (getNextMsgSeq base k (snd (run_calls base cs tbl))) = base + 1"
    by (simp add: fst_getNextMsgSeq)
next
  assume "k \<notin> set mid \<and> k \<in> set (map_keys (snd (run_calls base (k # mid) tbl)))"
  then show "fst (getNextMsgSeq base k (snd (run_calls base (k # mid) tbl)))
      = fst (getNextMsgSeq base k tbl) + 1"
    using back_to_back [OF assms, of k mid base] by (simp add: set_map_keys)
next
  assume "i < length ks \<and> never_evicted base (take i ks) tbl (ks ! i)"
  then show "fst (run_calls base ks tbl) ! i
      = base + (counter tbl (ks ! i) + int (occurrence ks i))"
    using nth_never_evicted [OF assms] by blast
next
  have wf: "wf_table []" by (simp add: wf_table_def)
  have c0: "counter [] (ks ! i) = 0" by (simp add: counter_def map_get_def)
  assume "i < length ks \<and> never_evicted base (take i ks) [] (ks ! i)"
  then show "fst (run_calls base ks []) ! i = base + int (occurrence ks i)"
    using nth_never_evicted [OF wf, of i ks base] c0 by simp
next
  assume "card (set (map_keys tbl) \<union> set ks) \<le> 1000"
  then show "never_evicted base ks tbl k"
    using never_evicted_few_keys [OF assms, of ks base k] by (simp add: set_map_keys)
next
  have wf: "wf_table []" by (simp add: wf_table_def)
  have c0: "counter [] (ks ! i) = 0" by (simp add: counter_def map_get_def)
  assume a: "i < length ks \<and> card (set ks) \<le> 1000"
  then have "card (fst ` set ([] :: seq_table) \<union> set ks) \<le> 1000" by simp
  then show "fst (run_calls base ks []) ! i = base + int (occurrence ks i)"
    using run_calls_nth_no_sweep [OF wf _ conjunct1 [OF a], of base] c0 by simp
qed

theorem nth_call_returns_base_plus_n_witness:
  "wf_table []
   \<and> key_of 0 \<notin> set (map_keys (snd (run_calls 100 (fresh_keys 1001) [])))
   \<and> fst (getNextMsgSeq 100 (key_of 0) (snd (run_calls 100 (fresh_keys 1001) []))) = 101
   \<and> ''m1'' \<notin> set [''m2''] \<and> ''m1'' \<in> set (map_keys (snd (run_calls 100 [''m1'', ''m2''] [])))
   \<and> fst (getNextMsgSeq 100 ''m1'' []) = 101
   \<and> fst (getNextMsgSeq 100 ''m1'' (snd (run_calls 100 [''m1'', ''m2''] []))) = 102
   \<and> 1001 < length (fresh_keys 1001 @ [key_of 1000])
   \<and> never_evicted 100 (take 1001 (fresh_keys 1001 @ [key_of 1000])) []
        ((fresh_keys 1001 @ [key_of 1000]) ! 1001)
   \<and> occurrence (fresh_keys 1001 @ [key_of 1000]) 1001 = 2
   \<and> fst (run_calls 100 (fresh_keys 1001 @ [key_of 1000]) []) ! 1001 = 102
   \<and> 2 < length [''m1'', ''m2'', ''m1''] \<and> card (set [''m1'', ''m2'', ''m1'']) \<le> 1000
   \<and> occurrence [''m1'', ''m2'', ''m1''] 2 = 2
   \<and> fst (run_calls 100 [''m1'', ''m2'', ''m1''] []) ! 2 = 102"
proof -
  let ?f = "\<lambda>k::string. (k, 1::int)"
  have wf: "wf_table []" by (simp add: wf_table_def)
  note th = nth_call_returns_base_plus_n [OF wf, where base = 100]
  \<comment> \<open>a key evicted by the sweep starts again\<close>
  have t1001: "snd (run_calls 100 (fresh_keys 1001) []) = map ?f (drop 500 (fresh_keys 1001))"
    using run_calls_one_sweep [OF distinct_fresh_keys, of 1001 100]
    by (simp add: length_fresh_keys)
  have gone: "key_of 0 \<notin> set (map_keys (snd (run_calls 100 (fresh_keys 1001) [])))"
    by (simp add: t1001 map_keys_def comp_def drop_fresh_keys key_of_mem)
  have restart:
    "fst (getNextMsgSeq 100 (key_of 0) (snd (run_calls 100 (fresh_keys 1001) []))) = 101"
    using th [where k = "key_of 0" and cs = "fresh_keys 1001", THEN conjunct1] gone by simp
  \<comment> \<open>two calls with calls for another key in between\<close>
  have m2: "''m1'' \<notin> set [''m2'']" by simp
  have run2: "snd (run_calls 100 [''m1'', ''m2''] []) = [(''m1'', 1), (''m2'', 1)]"
    by (simp add: getNextMsgSeq_def counter_def map_get_def map_set_def map_size_def Let_def)
  have kept: "''m1'' \<in> set (map_keys (snd (run_calls 100 [''m1'', ''m2''] [])))"
    by (simp only: run2) (simp add: map_keys_def)
  have first: "fst (getNextMsgSeq 100 ''m1'' []) = 101"
    by (simp add: fst_getNextMsgSeq counter_def map_get_def)
  have second: "fst (getNextMsgSeq 100 ''m1'' (snd (run_calls 100 [''m1'', ''m2''] []))) = 102"
    using th [where k = "''m1''" and mid = "[''m2'']", THEN conjunct2, THEN conjunct1]
      m2 kept first by simp
  \<comment> \<open>a key that survives the sweep goes on counting\<close>
  let ?ks = "fresh_keys 1001 @ [key_of 1000]"
  have len: "1001 < length ?ks" by (simp add: length_fresh_keys)
  have tk: "take 1001 ?ks = fresh_keys 1000 @ [key_of 1000]"
    using fresh_keys_Suc [of 1000] by (simp add: length_fresh_keys)
  have nth: "?ks ! 1001 = key_of 1000"
    by (simp add: nth_append length_fresh_keys)
  have t1000: "snd (run_calls 100 (fresh_keys 1000) []) = map ?f (fresh_keys 1000)"
    using run_calls_fresh [of "[]" "fresh_keys 1000" 100] distinct_fresh_keys [of 1000]
    by (simp add: length_fresh_keys)
  have d: "distinct (map fst (map ?f (fresh_keys 1000)) @ [key_of 1000])"
    using distinct_fresh_keys [of 1001] fresh_keys_Suc [of 1000] by (simp add: comp_def)
  have full: "length (map ?f (fresh_keys 1000)) = 1000" by (simp add: length_fresh_keys)
  have "snd (getNextMsgSeq 100 (key_of 1000) (map ?f (fresh_keys 1000)))
      = drop 500 (map ?f (fresh_keys 1000)) @ [?f (key_of 1000)]"
    using getNextMsgSeq_fresh_full [OF d full, of 100] by simp
  then have stays: "\<not> evicts 100 (key_of 1000) (map ?f (fresh_keys 1000)) (key_of 1000)"
    by (simp add: evicts_def map_keys_def)
  have absent: "never_evicted 100 (fresh_keys 1000) [] (key_of 1000)"
    by (rule never_evicted_absent) (simp_all add: set_fresh_keys key_of_mem)
  have ne: "never_evicted 100 (take 1001 ?ks) [] (?ks ! 1001)"
    unfolding tk nth using absent stays by (simp add: never_evicted_append t1000)
  have "count_list (fresh_keys 1001) (key_of 1000) = 1"
    by (rule count_list_distinct [OF distinct_fresh_keys]) (simp add: set_fresh_keys)
  then have occ: "occurrence ?ks 1001 = 2"
    by (simp add: occurrence_def length_fresh_keys nth_append)
  have survive: "fst (run_calls 100 ?ks []) ! 1001 = 102"
    using th [where i = 1001 and ks = ?ks, THEN conjunct2, THEN conjunct2, THEN conjunct2,
        THEN conjunct1] len ne occ by simp
  \<comment> \<open>few keys\<close>
  have l3: "2 < length [''m1'', ''m2'', ''m1'']" by simp
  have "card (set [''m1'', ''m2'', ''m1'']) \<le> length [''m1'', ''m2'', ''m1'']"
    by (rule card_length)
  then have c3: "card (set [''m1'', ''m2'', ''m1'']) \<le> 1000" by simp
  have o3: "occurrence [''m1'', ''m2'', ''m1''] 2 = 2" by (simp add: occurrence_def)
  have few: "fst (run_calls 100 [''m1'', ''m2'', ''m1''] []) ! 2 = 102"
    using th [where i = 2 and ks = "[''m1'', ''m2'', ''m1'']", THEN conjunct2, THEN conjunct2,
        THEN conjunct2, THEN conjunct2, THEN conjunct2] l3 c3 o3 by simp
  show ?thesis
    by (intro conjI wf gone restart m2 kept first second len ne occ survive l3 c3 o3 few)
qed

text \<open>
  The claim as stated fails once a key has been evicted: after a first call with \<open>m\<close>
  and calls with 1000 other keys, the second call with \<open>m\<close> returns \<open>base + 1\<close> again.
\<close>

theorem nth_call_counterexample:
  "occurrence (fresh_keys 1001 @ [key_of 0]) 1001 = 2
   \<and> fst (run_calls 100 (fresh_keys 1001 @ [key_of 0]) []) ! 1001 = 101"
proof -
  let ?ks = "fresh_keys 1001"
  have "key_of 0 \<in> set ?ks" by (simp add: set_fresh_keys)
  then have "count_list ?ks (key_of 0) = 1"
    using distinct_fresh_keys [of 1001] by (simp add: count_list_distinct)
  then have occ: "occurrence (?ks @ [key_of 0]) 1001 = 2"
    by (simp add: occurrence_def length_fresh_keys nth_append)
  have t: "snd (run_calls 100 ?ks []) = map (\<lambda>k. (k, 1)) (drop 500 ?ks)"
    using run_calls_one_sweep [OF distinct_fresh_keys, of 1001 100]
    by (simp add: length_fresh_keys)
  have "key_of 0 \<notin> fst ` set (map (\<lambda>k. (k, 1::int)) (drop 500 ?ks))"
    by (simp add: image_comp comp_def drop_fresh_keys key_of_mem)
  then have "counter (snd (run_calls 100 ?ks [])) (key_of 0) = 0"
    unfolding t by (rule counter_fresh)
  then have "fst (getNextMsgSeq 100 (key_of 0) (snd (run_calls 100 ?ks []))) = 101"
    by (simp add: fst_getNextMsgSeq)
  then have "fst (run_calls 100 (?ks @ [key_of 0]) []) ! 1001 = 101"
    using length_run_calls [of 100 ?ks "[]"]
    by (simp add: run_calls_append nth_append length_fresh_keys split_beta)
  with occ show ?thesis by simp
qed

text \<open>
  C2 (as amended). From the empty table, one call each with \<open>n\<close> distinct keys, where
  \<open>1000 < n \<le> 1500\<close>, runs the sweep exactly once; the table is left with the keys after
  the first 500, in order and each with counter 1, so the 500 keys inserted first are the
  ones removed; and a call with a removed key returns \<open>base + 1\<close>.
\<close>

theorem one_sweep_evicts_oldest_500:
  assumes "distinct ks" and "1000 < length ks" and "length ks \<le> 1500"
  shows "count_sweeps base ks [] = 1
       \<and> snd (run_calls base ks []) = map (\<lambda>k. (k, 1)) (drop 500 ks)
       \<and> map_keys (snd (run_calls base ks [])) = drop 500 ks
       \<and> (\<forall>k \<in> set (take 500 ks).
            fst (getNextMsgSeq base k (snd (run_calls base ks []))) = base + 1)"
proof -
  have t: "snd (run_calls base ks []) = map (\<lambda>k. (k, 1)) (drop 500 ks)"
    and c: "count_sweeps base ks [] = 1"
    using run_calls_one_sweep [OF assms] by simp_all
  have keys: "map_keys (snd (run_calls base ks [])) = drop 500 ks"
    by (simp add: t map_keys_def comp_def)
  have "fst (getNextMsgSeq base k (snd (run_calls base ks []))) = base + 1"
    if k: "k \<in> set (take 500 ks)" for k
  proof -
    have "distinct (take 500 ks @ drop 500 ks)" using assms(1) by simp
    then have "k \<notin> set (drop 500 ks)" using k by (simp only: distinct_append) blast
    then have "k \<notin> fst ` set (snd (run_calls base ks []))"
      using keys by (simp add: map_keys_def flip: set_map)
    then have "counter (snd (run_calls base ks [])) k = 0" by (rule counter_fresh)
    then show ?thesis by (simp add: fst_getNextMsgSeq)
  qed
  with t c keys show ?thesis by simp
qed

theorem one_sweep_evicts_oldest_500_witness:
  "distinct (fresh_keys 1001) \<and> 1000 < length (fresh_keys 1001)
   \<and> length (fresh_keys 1001) \<le> 1500
   \<and> count_sweeps 100 (fresh_keys 1001) [] = 1
   \<and> map_keys (snd (run_calls 100 (fresh_keys 1001) [])) = drop 500 (fresh_keys 1001)
   \<and> fst (getNextMsgSeq 100 (key_of 0) (snd (run_calls 100 (fresh_keys 1001) []))) = 101"
proof -
  have d: "distinct (fresh_keys 1001)" by (rule distinct_fresh_keys)
  have lo: "1000 < length (fresh_keys 1001)" by (simp add: length_fresh_keys)
  have hi: "length (fresh_keys 1001) \<le> 1500" by (simp add: length_fresh_keys)
  have m: "key_of 0 \<in> set (take 500 (fresh_keys 1001))"
    by (simp add: take_fresh_keys set_fresh_keys)
  note th = one_sweep_evicts_oldest_500 [OF d lo hi, of 100]
  from th m
  have "fst (getNextMsgSeq 100 (key_of 0) (snd (run_calls 100 (fresh_keys 1001) []))) = 100 + 1"
    by blast
  then have e: "fst (getNextMsgSeq 100 (key_of 0) (snd (run_calls 100 (fresh_keys 1001) []))) = 101"
    by simp
  have c: "count_sweeps 100 (fresh_keys 1001) [] = 1" using th by blast
  have k: "map_keys (snd (run_calls 100 (fresh_keys 1001) [])) = drop 500 (fresh_keys 1001)"
    using th by blast
  show ?thesis by (intro conjI d lo hi c k e)
qed

text \<open>
  The claim as stated fails for 1501 distinct keys: the sweep runs twice (at calls 1001
  and 1501) and 1000 keys are removed.
\<close>

theorem one_sweep_counterexample:
  "count_sweeps 100 (fresh_keys 1501) [] = 2
   \<and> map_keys (snd (run_calls 100 (fresh_keys 1501) [])) = drop 1000 (fresh_keys 1501)"
proof -
  let ?f = "\<lambda>k::string. (k, 1::int)"
  let ?ks = "fresh_keys 1500" and ?k = "key_of 1500"
  have sp: "fresh_keys 1501 = ?ks @ [?k]" using fresh_keys_Suc [of 1500] by simp
  have p1: "snd (run_calls 100 ?ks []) = map ?f (drop 500 ?ks)"
    and c1: "count_sweeps 100 ?ks [] = 1"
    using run_calls_one_sweep [OF distinct_fresh_keys, of 1500 100]
    by (simp_all add: length_fresh_keys)
  have "distinct (drop 500 ?ks @ [?k])"
    using distinct_fresh_keys [of 1501] unfolding sp
    by (auto simp: distinct_drop dest: in_set_dropD)
  then have d: "distinct (map fst (map ?f (drop 500 ?ks)) @ [?k])" by (simp add: comp_def)
  have l: "length (map ?f (drop 500 ?ks)) = 1000" by (simp add: length_fresh_keys)
  have p2: "getNextMsgSeq 100 ?k (map ?f (drop 500 ?ks))
      = (100 + 1, drop 500 (map ?f (drop 500 ?ks)) @ [?f ?k])"
    and s2: "sweep_due ?k (map ?f (drop 500 ?ks))"
    using getNextMsgSeq_fresh_full [OF d l, of 100] by simp_all
  have "count_sweeps 100 (?ks @ [?k]) [] = 2"
    using c1 s2 by (simp add: count_sweeps_append p1)
  moreover have "map_keys (snd (run_calls 100 (?ks @ [?k]) [])) = drop 1000 (?ks @ [?k])"
    by (simp add: run_calls_append p1 p2 map_keys_def comp_def drop_map length_fresh_keys)
  ultimately show ?thesis unfolding sp by simp
qed

section \<open>Properties of the credential cache\<close>


lemma getAccessToken_miss:
  "\<not> cache_usable cachedToken now_check \<Longrightarrow>
   getAccessToken rt now_check now_store cachedToken appId clientSecret
     = fetchToken rt now_store cachedToken appId clientSecret"
  by (simp add: getAccessToken_def cache_usable_def split: option.splits)


lemma fetchToken_resume:
  "fetchToken rt now_store cachedToken appId clientSecret
     = (fst (getAccessToken_resume rt now_store cachedToken
               (fetch rt (token_request appId clientSecret))),
        snd (getAccessToken_resume rt now_store cachedToken
               (fetch rt (token_request appId clientSecret))),
        [token_request appId clientSecret])"
  by (simp add: fetchToken_def Let_def split_beta)

lemma resume_rejected:
  "getAccessToken_resume rt now_store cachedToken (Rejected err)
     = (Inl (Error (''Network error getting access_token: '' @ cause_text err)), cachedToken)"
  by (simp add: getAccessToken_resume_def)

lemma resume_unparsable:
  "getAccessToken_resume rt now_store cachedToken (Responded ok (Unparsable err))
     = (Inl (Error (''Failed to parse access_token response: '' @ cause_text err)), cachedToken)"
  by (simp add: getAccessToken_resume_def)

lemma resume_null:
  "getAccessToken_resume rt now_store cachedToken (Responded ok (Parsed JsonNull))
     = (Inl (TypeError ''access_token''), cachedToken)"
  by (simp add: getAccessToken_resume_def)

lemma resume_no_token:
  "access_token data = None \<Longrightarrow>
   getAccessToken_resume rt now_store cachedToken (Responded ok (Parsed (JsonTyped data)))
     = (Inl (Error (''Failed to get access_token: '' @ stringify rt data)), cachedToken)"
  by (simp add: getAccessToken_resume_def truthy_str_def)

lemma resume_empty_token:
  "access_token data = Some [] \<Longrightarrow>
   getAccessToken_resume rt now_store cachedToken (Responded ok (Parsed (JsonTyped data)))
     = (Inl (Error (''Failed to get access_token: '' @ stringify rt data)), cachedToken)"
  by (simp add: getAccessToken_resume_def truthy_str_def)

lemma resume_token:
  "access_token data = Some t \<Longrightarrow> t \<noteq> [] \<Longrightarrow>
   getAccessToken_resume rt now_store cachedToken (Responded ok (Parsed (JsonTyped data)))
     = (Inr t,
        Some \<lparr>token = t,
              expiresAt = now_store + (case expires_in data of None \<Rightarrow> 7200 | Some e \<Rightarrow> e) * 1000\<rparr>)"
  by (simp add: getAccessToken_resume_def truthy_str_def Let_def)



lemma getAccessToken_uninterrupted:
  "getAccessToken rt now_check now_store cachedToken appId clientSecret
     = (case getAccessToken_begin now_check cachedToken appId clientSecret of
          Inl tok \<Rightarrow> (Inr tok, cachedToken, [])
        | Inr req \<Rightarrow>
            (fst (getAccessToken_resume rt now_store cachedToken (fetch rt req)),
             snd (getAccessToken_resume rt now_store cachedToken (fetch rt req)), [req]))"
  by (simp add: getAccessToken_def getAccessToken_begin_def fetchToken_resume
        split: option.splits)




text \<open>
  C4 (as amended). When the call fetches (no usable cached credential) and the fetch is
  rejected, or the body of the answer does not parse, or the answer parses to a value
  other than \<open>null\<close> that has no \<open>access_token\<close>, the call fails with an error whose
  message ends with the text of the cause, respectively with the serialised answer. When
  the answer parses to \<open>null\<close>, the call fails with the \<open>TypeError\<close> of the read of
  \<open>data.access_token\<close>, which carries neither. In all four cases the cache is as it was.
\<close>

theorem getAccessToken_failure_keeps_cache:
  assumes "\<not> cache_usable cachedToken now_check"
  shows "(fetch rt (token_request appId clientSecret) = Rejected err \<longrightarrow>
            getAccessToken rt now_check now_store cachedToken appId clientSecret
              = (Inl (Error (''Network error getting access_token: '' @ cause_text err)),
                 cachedToken, [token_request appId clientSecret]))
       \<and> (fetch rt (token_request appId clientSecret) = Responded ok (Unparsable err) \<longrightarrow>
            getAccessToken rt now_check now_store cachedToken appId clientSecret
              = (Inl (Error (''Failed to parse access_token response: '' @ cause_text err)),
                 cachedToken, [token_request appId clientSecret]))
       \<and> (fetch rt (token_request appId clientSecret) = Responded ok (Parsed (JsonTyped data))
            \<and> access_token data = None \<longrightarrow>
            getAccessToken rt now_check now_store cachedToken appId clientSecret
              = (Inl (Error (''Failed to get access_token: '' @ stringify rt data)),
                 cachedToken, [token_request appId clientSecret]))
       \<and> (fetch rt (token_request appId clientSecret) = Responded ok (Parsed JsonNull) \<longrightarrow>
            getAccessToken rt now_check now_store cachedToken appId clientSecret
              = (Inl (TypeError ''access_token''),
                 cachedToken, [token_request appId clientSecret]))"
  using assms
  by (simp add: getAccessToken_miss fetchToken_resume resume_rejected resume_unparsable
        resume_null resume_no_token)

theorem getAccessToken_failure_keeps_cache_witness:
  "\<not> cache_usable (Some \<lparr>token = ''t0'', expiresAt = 7200000\<rparr>) 6900000
   \<and> getAccessToken (fixed_reply (Rejected (ErrorObj ''offline'')) :: token_data runtime)
        6900000 6900000 (Some \<lparr>token = ''t0'', expiresAt = 7200000\<rparr>) ''app'' ''secret''
     = (Inl (Error ''Network error getting access_token: offline''),
        Some \<lparr>token = ''t0'', expiresAt = 7200000\<rparr>, [token_request ''app'' ''secret''])
   \<and> getAccessToken
        (fixed_reply (Responded True (Unparsable (ErrorObj ''Unexpected token'')))
           :: token_data runtime)
        6900000 6900000 (Some \<lparr>token = ''t0'', expiresAt = 7200000\<rparr>) ''app'' ''secret''
     = (Inl (Error ''Failed to parse access_token response: Unexpected token''),
        Some \<lparr>token = ''t0'', expiresAt = 7200000\<rparr>, [token_request ''app'' ''secret''])
   \<and> getAccessToken
        (fixed_reply (Responded False
           (Parsed (JsonTyped \<lparr>access_token = None, expires_in = None\<rparr>))))
        6900000 6900000 (Some \<lparr>token = ''t0'', expiresAt = 7200000\<rparr>) ''app'' ''secret''
     = (Inl (Error ''Failed to get access_token: <json>''),
        Some \<lparr>token = ''t0'', expiresAt = 7200000\<rparr>, [token_request ''app'' ''secret''])
   \<and> getAccessToken
        (fixed_reply (Responded True (Parsed JsonNull)) :: token_data runtime)
        6900000 6900000 (Some \<lparr>token = ''t0'', expiresAt = 7200000\<rparr>) ''app'' ''secret''
     = (Inl (TypeError ''access_token''),
        Some \<lparr>token = ''t0'', expiresAt = 7200000\<rparr>, [token_request ''app'' ''secret''])"
proof -
  let ?c0 = "\<lparr>token = ''t0'', expiresAt = 7200000\<rparr>"
  let ?none = "\<lparr>access_token = None, expires_in = None\<rparr>"
  let ?r1 = "fixed_reply (Rejected (ErrorObj ''offline'')) :: token_data runtime"
  let ?r2 = "fixed_reply (Responded True (Unparsable (ErrorObj ''Unexpected token'')))
               :: token_data runtime"
  let ?r3 = "fixed_reply (Responded False (Parsed (JsonTyped ?none)))"
  let ?r4 = "fixed_reply (Responded True (Parsed JsonNull)) :: token_data runtime"
  have stale: "\<not> cache_usable (Some ?c0) 6900000"
    by (simp add: cache_usable_def)
  note th = getAccessToken_failure_keeps_cache [OF stale, where now_store = 6900000
      and appId = "''app''" and clientSecret = "''secret''"]
  have a: "getAccessToken ?r1 6900000 6900000 (Some ?c0) ''app'' ''secret''
     = (Inl (Error ''Network error getting access_token: offline''),
        Some ?c0, [token_request ''app'' ''secret''])"
    using th [where rt = ?r1 and err = "ErrorObj ''offline''"]
    by (simp add: fixed_reply_def)
  have b: "getAccessToken ?r2 6900000 6900000 (Some ?c0) ''app'' ''secret''
     = (Inl (Error ''Failed to parse access_token response: Unexpected token''),
        Some ?c0, [token_request ''app'' ''secret''])"
    using th [where rt = ?r2 and err = "ErrorObj ''Unexpected token''" and ok = True]
    by (simp add: fixed_reply_def)
  have c: "getAccessToken ?r3 6900000 6900000 (Some ?c0) ''app'' ''secret''
     = (Inl (Error ''Failed to get access_token: <json>''),
        Some ?c0, [token_request ''app'' ''secret''])"
    using th [where rt = ?r3 and data = ?none and ok = False]
    by (simp add: fixed_reply_def)
  have d: "getAccessToken ?r4 6900000 6900000 (Some ?c0) ''app'' ''secret''
     = (Inl (TypeError ''access_token''), Some ?c0, [token_request ''app'' ''secret''])"
    using th [where rt = ?r4 and ok = True]
    by (simp add: fixed_reply_def)
  show ?thesis by (intro conjI stale a b c d)
qed

text \<open>
  The claim as stated fails for an answer that parses to \<open>null\<close>: it has no
  \<open>access_token\<close>, and the call fails with a \<open>TypeError\<close> that carries neither a cause nor
  the answer (the cache is still as it was).
\<close>

theorem getAccessToken_null_body_counterexample:
  "getAccessToken (fixed_reply (Responded True (Parsed JsonNull)) :: token_data runtime)
      6900000 6900000 (Some \<lparr>token = ''t0'', expiresAt = 7200000\<rparr>) ''app'' ''secret''
     = (Inl (TypeError ''access_token''),
        Some \<lparr>token = ''t0'', expiresAt = 7200000\<rparr>, [token_request ''app'' ''secret''])"
  by (simp add: getAccessToken_def fetchToken_resume resume_null fixed_reply_def)

text \<open>
  C6 (as amended). When the call fetches and the parsed answer holds a non-empty
  \<open>access_token\<close>, the cached credential is replaced as a whole by that token with
  \<open>expiresAt = now + (expires_in ?? 7200) * 1000\<close>, \<open>now\<close> being the clock at the store
  (7200 seconds from then when \<open>expires_in\<close> is absent), and the new token is returned.
\<close>

theorem getAccessToken_stores_fetched_token:
  assumes "\<not> cache_usable cachedToken now_check"
    and "fetch rt (token_request appId clientSecret) = Responded ok (Parsed (JsonTyped data))"
    and "access_token data = Some t" and "t \<noteq> []"
  shows "getAccessToken rt now_check now_store cachedToken appId clientSecret
     = (Inr t,
        Some \<lparr>token = t,
              expiresAt = now_store + (case expires_in data of None \<Rightarrow> 7200 | Some e \<Rightarrow> e) * 1000\<rparr>,
        [token_request appId clientSecret])"
  using assms
  by (simp add: getAccessToken_miss fetchToken_resume resume_token)

theorem getAccessToken_stores_fetched_token_witness:
  "\<not> cache_usable (Some \<lparr>token = ''t0'', expiresAt = 7200000\<rparr>) 6900000
   \<and> getAccessToken
        (fixed_reply (Responded True
           (Parsed (JsonTyped \<lparr>access_token = Some ''t1'', expires_in = None\<rparr>))))
        6900000 6900500 (Some \<lparr>token = ''t0'', expiresAt = 7200000\<rparr>) ''app'' ''secret''
     = (Inr ''t1'', Some \<lparr>token = ''t1'', expiresAt = 14100500\<rparr>,
        [token_request ''app'' ''secret''])"
proof -
  let ?c0 = "\<lparr>token = ''t0'', expiresAt = 7200000\<rparr>"
  let ?d = "\<lparr>access_token = Some ''t1'', expires_in = None\<rparr>"
  have stale: "\<not> cache_usable (Some ?c0) 6900000"
    by (simp add: cache_usable_def)
  have f: "fetch (fixed_reply (Responded True (Parsed (JsonTyped ?d))))
        (token_request ''app'' ''secret'')
      = Responded True (Parsed (JsonTyped ?d))"
    by (simp add: fixed_reply_def)
  have a: "access_token ?d = Some ''t1''" by simp
  have n: "''t1'' \<noteq> []" by simp
  show ?thesis
    using stale getAccessToken_stores_fetched_token [OF stale f a n, of 6900500] by simp
qed

text \<open>
  The claim as stated fails for an answer whose \<open>access_token\<close> is the empty string: the
  check \<open>!data.access_token\<close> rejects it, the call fails and nothing is cached.
\<close>

theorem getAccessToken_empty_token_counterexample:
  "access_token \<lparr>access_token = Some [], expires_in = Some 7200\<rparr> = Some []
   \<and> getAccessToken
        (fixed_reply (Responded True
           (Parsed (JsonTyped \<lparr>access_token = Some [], expires_in = Some 7200\<rparr>))))
        1000 2000 None ''app'' ''secret''
     = (Inl (Error ''Failed to get access_token: <json>''), None,
        [token_request ''app'' ''secret''])"
  by (simp add: getAccessToken_def fetchToken_resume resume_empty_token fixed_reply_def)

text \<open>
  C8 (as amended). \<open>clearTokenCache\<close> leaves no cached credential, whatever was cached,
  and has no failing path. A \<open>getAccessToken\<close> call made on the cache as
  \<open>clearTokenCache\<close> left it never returns from the cache: it issues the request to the
  token endpoint, exactly that one, and its outcome is the one the answer of the network
  gives (the error of a rejected fetch, the token of an answer that holds one), at any
  clock reading and whatever credential was discarded.
\<close>

theorem clearTokenCache_forces_fetch:
  "clearTokenCache cachedToken = None
   \<and> getAccessToken_begin now_check (clearTokenCache cachedToken) appId clientSecret
       = Inr (token_request appId clientSecret)
   \<and> getAccessToken rt now_check now_store (clearTokenCache cachedToken) appId clientSecret
       = (fst (getAccessToken_resume rt now_store None
                 (fetch rt (token_request appId clientSecret))),
          snd (getAccessToken_resume rt now_store None
                 (fetch rt (token_request appId clientSecret))),
          [token_request appId clientSecret])
   \<and> (fetch rt (token_request appId clientSecret) = Rejected err \<longrightarrow>
        getAccessToken rt now_check now_store (clearTokenCache cachedToken) appId clientSecret
          = (Inl (Error (''Network error getting access_token: '' @ cause_text err)),
             None, [token_request appId clientSecret]))
   \<and> (fetch rt (token_request appId clientSecret) = Responded ok (Parsed (JsonTyped data))
        \<and> access_token data = Some t \<and> t \<noteq> [] \<longrightarrow>
        getAccessToken rt now_check now_store (clearTokenCache cachedToken) appId clientSecret
          = (Inr t,
             Some \<lparr>token = t,
                   expiresAt = now_store
                     + (case expires_in data of None \<Rightarrow> 7200 | Some e \<Rightarrow> e) * 1000\<rparr>,
             [token_request appId clientSecret]))"
  by (simp add: clearTokenCache_def getAccessToken_def getAccessToken_begin_def
        fetchToken_resume resume_rejected resume_token)

theorem clearTokenCache_forces_fetch_witness:
  "cache_usable (Some \<lparr>token = ''t0'', expiresAt = 7200000\<rparr>) 1000
   \<and> getAccessToken (fixed_reply (Rejected (ErrorObj ''offline'')) :: token_data runtime)
        1000 1000 (clearTokenCache (Some \<lparr>token = ''t0'', expiresAt = 7200000\<rparr>))
        ''app'' ''secret''
     = (Inl (Error ''Network error getting access_token: offline''), None,
        [token_request ''app'' ''secret''])
   \<and> getAccessToken
        (fixed_reply (Responded True
           (Parsed (JsonTyped \<lparr>access_token = Some ''t1'', expires_in = Some 3600\<rparr>))))
        1000 2000 (clearTokenCache (Some \<lparr>token = ''t0'', expiresAt = 7200000\<rparr>))
        ''app'' ''secret''
     = (Inr ''t1'', Some \<lparr>token = ''t1'', expiresAt = 3602000\<rparr>,
        [token_request ''app'' ''secret''])"
proof -
  let ?c0 = "\<lparr>token = ''t0'', expiresAt = 7200000\<rparr>"
  let ?d = "\<lparr>access_token = Some ''t1'', expires_in = Some 3600\<rparr>"
  let ?off = "fixed_reply (Rejected (ErrorObj ''offline'')) :: token_data runtime"
  let ?on = "fixed_reply (Responded True (Parsed (JsonTyped ?d)))"
  have u: "cache_usable (Some ?c0) 1000"
    by (simp add: cache_usable_def)
  have f1: "fetch ?off (token_request ''app'' ''secret'') = Rejected (ErrorObj ''offline'')"
    by (simp add: fixed_reply_def)
  have f2: "fetch ?on (token_request ''app'' ''secret'') = Responded True (Parsed (JsonTyped ?d))"
    by (simp add: fixed_reply_def)
  note th1 = clearTokenCache_forces_fetch
      [where rt = ?off and err = "ErrorObj ''offline''" and cachedToken = "Some ?c0"
         and now_check = 1000 and now_store = 1000 and appId = "''app''"
         and clientSecret = "''secret''"]
  note th2 = clearTokenCache_forces_fetch
      [where rt = ?on and data = ?d and t = "''t1''" and ok = True and cachedToken = "Some ?c0"
         and now_check = 1000 and now_store = 2000 and appId = "''app''"
         and clientSecret = "''secret''"]
  have a: "getAccessToken ?off 1000 1000 (clearTokenCache (Some ?c0)) ''app'' ''secret''
     = (Inl (Error ''Network error getting access_token: offline''), None,
        [token_request ''app'' ''secret''])"
    using th1 [THEN conjunct2, THEN conjunct2, THEN conjunct2, THEN conjunct1] f1 by simp
  have b: "getAccessToken ?on 1000 2000 (clearTokenCache (Some ?c0)) ''app'' ''secret''
     = (Inr ''t1'', Some \<lparr>token = ''t1'', expiresAt = 3602000\<rparr>,
        [token_request ''app'' ''secret''])"
    using th2 [THEN conjunct2, THEN conjunct2, THEN conjunct2, THEN conjunct2] f2 by simp
  show ?thesis by (intro conjI u a b)
qed

text \<open>
  The claim as stated fails when a call is in flight across the clear. A call that found
  the credential stale and is suspended on its request resumes after \<open>clearTokenCache\<close>
  and stores the token it fetched; the next \<open>getAccessToken\<close> call after the clear then
  returns that token from the cache and fetches nothing.
\<close>

theorem clearTokenCache_in_flight_counterexample:
  "getAccessToken_begin 6950000 (Some \<lparr>token = ''t0'', expiresAt = 7200000\<rparr>)
      ''app'' ''secret''
     = Inr (token_request ''app'' ''secret'')
   \<and> getAccessToken_resume
        (fixed_reply (Responded True
           (Parsed (JsonTyped \<lparr>access_token = Some ''t1'', expires_in = None\<rparr>))))
        6960000 (clearTokenCache (Some \<lparr>token = ''t0'', expiresAt = 7200000\<rparr>))
        (Responded True (Parsed (JsonTyped \<lparr>access_token = Some ''t1'', expires_in = None\<rparr>)))
     = (Inr ''t1'', Some \<lparr>token = ''t1'', expiresAt = 14160000\<rparr>)
   \<and> getAccessToken (fixed_reply (Rejected (ErrorObj ''offline'')) :: token_data runtime)
        6970000 6970000 (Some \<lparr>token = ''t1'', expiresAt = 14160000\<rparr>) ''app'' ''secret''
     = (Inr ''t1'', Some \<lparr>token = ''t1'', expiresAt = 14160000\<rparr>, [])"
  by (simp add: getAccessToken_begin_def clearTokenCache_def resume_token getAccessToken_def)

section \<open>Properties of the request executor\<close>

lemma apiRequest_requests:
  "snd (apiRequest rt accessToken meth path payload) = [api_request_of accessToken meth path payload]"
  by (simp add: apiRequest_def Let_def)

lemma kind_transport:
  "error_kind_of path (Error (''Network error ['' @ path @ '']: '' @ cause)) = Some TransportError"
  by (simp add: error_kind_of_def)

lemma kind_decode:
  "error_kind_of path (Error (''Failed to parse response ['' @ path @ '']: '' @ cause))
     = Some DecodeError"
  by (simp add: error_kind_of_def)

lemma kind_api:
  "error_kind_of path (Error (''API Error ['' @ path @ '']: '' @ cause)) = Some ApiError"
  by (simp add: error_kind_of_def)

lemma failure_kind_Inl: "failure_kind path (Inl e) = error_kind_of path e"
  by (simp add: failure_kind_def)

lemma apiRequest_rejected:
  assumes "fetch rt (api_request_of accessToken meth path payload) = Rejected err"
  shows "fst (apiRequest rt accessToken meth path payload)
           = Inl (Error (''Network error ['' @ path @ '']: '' @ cause_text err))
       \<and> failure_kind path (fst (apiRequest rt accessToken meth path payload))
           = Some TransportError"
proof -
  have "fst (apiRequest rt accessToken meth path payload)
      = Inl (Error (''Network error ['' @ path @ '']: '' @ cause_text err))"
    using assms by (simp add: apiRequest_def Let_def)
  then show ?thesis by (simp only: failure_kind_Inl kind_transport simp_thms)
qed

lemma apiRequest_unparsable:
  assumes "fetch rt (api_request_of accessToken meth path payload) = Responded ok (Unparsable err)"
  shows "fst (apiRequest rt accessToken meth path payload)
           = Inl (Error (''Failed to parse response ['' @ path @ '']: '' @ cause_text err))
       \<and> failure_kind path (fst (apiRequest rt accessToken meth path payload))
           = Some DecodeError"
proof -
  have "fst (apiRequest rt accessToken meth path payload)
      = Inl (Error (''Failed to parse response ['' @ path @ '']: '' @ cause_text err))"
    using assms by (simp add: apiRequest_def Let_def)
  then show ?thesis by (simp only: failure_kind_Inl kind_decode simp_thms)
qed

lemma apiRequest_failure_status:
  assumes "fetch rt (api_request_of accessToken meth path payload)
             = Responded False (Parsed (JsonTyped data))"
  shows "fst (apiRequest rt accessToken meth path payload)
           = Inl (Error (''API Error ['' @ path @ '']: ''
               @ (case message data of Some m \<Rightarrow> m | None \<Rightarrow> stringify rt data)))
       \<and> failure_kind path (fst (apiRequest rt accessToken meth path payload))
           = Some ApiError"
proof -
  have "fst (apiRequest rt accessToken meth path payload)
      = Inl (Error (''API Error ['' @ path @ '']: ''
          @ (case message data of Some m \<Rightarrow> m | None \<Rightarrow> stringify rt data)))"
    using assms by (simp add: apiRequest_def Let_def)
  then show ?thesis by (simp only: failure_kind_Inl kind_api simp_thms)
qed

lemma apiRequest_failure_status_null:
  assumes "fetch rt (api_request_of accessToken meth path payload)
             = Responded False (Parsed JsonNull)"
  shows "fst (apiRequest rt accessToken meth path payload) = Inl (TypeError ''message'')
       \<and> failure_kind path (fst (apiRequest rt accessToken meth path payload)) = None"
  using assms by (simp add: apiRequest_def Let_def failure_kind_def error_kind_of_def)

lemma apiRequest_success_status:
  assumes "fetch rt (api_request_of accessToken meth path payload) = Responded True (Parsed data)"
  shows "fst (apiRequest rt accessToken meth path payload) = Inr data
       \<and> failure_kind path (fst (apiRequest rt accessToken meth path payload)) = None"
  using assms by (simp add: apiRequest_def Let_def failure_kind_def)

lemma apiRequest_returns_or_fails:
  "(\<exists>data. fst (apiRequest rt accessToken meth path payload) = Inr data)
   \<or> failure_kind path (fst (apiRequest rt accessToken meth path payload)) = Some TransportError
   \<or> failure_kind path (fst (apiRequest rt accessToken meth path payload)) = Some DecodeError
   \<or> failure_kind path (fst (apiRequest rt accessToken meth path payload)) = Some ApiError
   \<or> (fetch rt (api_request_of accessToken meth path payload)
         = Responded False (Parsed JsonNull)
      \<and> fst (apiRequest rt accessToken meth path payload) = Inl (TypeError ''message''))"
proof (cases "fetch rt (api_request_of accessToken meth path payload)")
  case (Rejected err)
  then show ?thesis using apiRequest_rejected by blast
next
  case (Responded ok parsed_body)
  show ?thesis
  proof (cases parsed_body)
    case (Unparsable err)
    with Responded show ?thesis using apiRequest_unparsable by blast
  next
    case (Parsed data)
    show ?thesis
    proof (cases ok)
      case True
      with Responded Parsed
      have "fetch rt (api_request_of accessToken meth path payload) = Responded True (Parsed data)"
        by simp
      then show ?thesis using apiRequest_success_status by blast
    next
      case False
      show ?thesis
      proof (cases data)
        case JsonNull
        with Responded Parsed False
        have f: "fetch rt (api_request_of accessToken meth path payload)
            = Responded False (Parsed JsonNull)"
          by simp
        then show ?thesis using apiRequest_failure_status_null by blast
      next
        case (JsonTyped error)
        with Responded Parsed False
        have "fetch rt (api_request_of accessToken meth path payload)
            = Responded False (Parsed (JsonTyped error))"
          by simp
        then show ?thesis using apiRequest_failure_status by blast
      qed
    qed
  qed
qed

text \<open>
  C5 (as amended). \<open>apiRequest\<close> fetches exactly one request. It returns the parsed
  body, or fails with an error of exactly one of the three kinds, or, when a failure status
  comes with a body that parses to \<open>null\<close>, fails with the \<open>TypeError\<close> of the read of
  \<open>error.message\<close>, which is of none of the three. A rejected fetch gives the error
  \<open>Network error [path]: cause\<close> (a transport error); an answer whose body does not parse
  gives \<open>Failed to parse response [path]: cause\<close> (a decode error), whatever its status; a
  parsed body other than \<open>null\<close> under a failure status gives \<open>API Error [path]: \<close>
  followed by the \<open>message\<close> of the body, or by the serialised body when it has none (an
  API error); a parsed body under a success status is returned. So a failure status with
  the body \<open>{message: "invalid param"}\<close> gives an API error carrying \<open>invalid param\<close>.
\<close>

theorem apiRequest_outcomes:
  "snd (apiRequest rt accessToken meth path payload)
     = [api_request_of accessToken meth path payload]
   \<and> ((\<exists>returned. fst (apiRequest rt accessToken meth path payload) = Inr returned)
      \<or> failure_kind path (fst (apiRequest rt accessToken meth path payload))
          = Some TransportError
      \<or> failure_kind path (fst (apiRequest rt accessToken meth path payload))
          = Some DecodeError
      \<or> failure_kind path (fst (apiRequest rt accessToken meth path payload))
          = Some ApiError
      \<or> (fetch rt (api_request_of accessToken meth path payload)
            = Responded False (Parsed JsonNull)
         \<and> fst (apiRequest rt accessToken meth path payload) = Inl (TypeError ''message'')))
   \<and> (fetch rt (api_request_of accessToken meth path payload) = Rejected err \<longrightarrow>
        fst (apiRequest rt accessToken meth path payload)
          = Inl (Error (''Network error ['' @ path @ '']: '' @ cause_text err))
        \<and> failure_kind path (fst (apiRequest rt accessToken meth path payload))
          = Some TransportError)
   \<and> (fetch rt (api_request_of accessToken meth path payload) = Responded ok (Unparsable err) \<longrightarrow>
        fst (apiRequest rt accessToken meth path payload)
          = Inl (Error (''Failed to parse response ['' @ path @ '']: '' @ cause_text err))
        \<and> failure_kind path (fst (apiRequest rt accessToken meth path payload))
          = Some DecodeError)
   \<and> (fetch rt (api_request_of accessToken meth path payload)
          = Responded False (Parsed (JsonTyped data)) \<longrightarrow>
        fst (apiRequest rt accessToken meth path payload)
          = Inl (Error (''API Error ['' @ path @ '']: ''
              @ (case message data of Some m \<Rightarrow> m | None \<Rightarrow> stringify rt data)))
        \<and> failure_kind path (fst (apiRequest rt accessToken meth path payload))
          = Some ApiError)
   \<and> (fetch rt (api_request_of accessToken meth path payload)
          = Responded False (Parsed (JsonTyped data))
        \<and> message data = Some ''invalid param'' \<longrightarrow>
        fst (apiRequest rt accessToken meth path payload)
          = Inl (Error (''API Error ['' @ path @ '']: invalid param'')))
   \<and> (fetch rt (api_request_of accessToken meth path payload)
          = Responded False (Parsed JsonNull) \<longrightarrow>
        fst (apiRequest rt accessToken meth path payload) = Inl (TypeError ''message'')
        \<and> failure_kind path (fst (apiRequest rt accessToken meth path payload)) = None)
   \<and> (fetch rt (api_request_of accessToken meth path payload)
          = Responded True (Parsed returned_body) \<longrightarrow>
        fst (apiRequest rt accessToken meth path payload) = Inr returned_body
        \<and> failure_kind path (fst (apiRequest rt accessToken meth path payload)) = None)"
proof -
  let ?req = "api_request_of accessToken meth path payload"
  let ?out = "fst (apiRequest rt accessToken meth path payload)"
  have inv: "?out = Inl (Error (''API Error ['' @ path @ '']: invalid param''))"
    if f: "fetch rt ?req = Responded False (Parsed (JsonTyped data))
           \<and> message data = Some ''invalid param''"
    using f by (simp add: apiRequest_def Let_def)
  show ?thesis
    using apiRequest_requests [of rt accessToken meth path payload]
      apiRequest_returns_or_fails [of rt accessToken meth path payload]
      apiRequest_rejected [of rt accessToken meth path payload err]
      apiRequest_unparsable [of rt accessToken meth path payload ok err]
      apiRequest_failure_status [of rt accessToken meth path payload data]
      apiRequest_failure_status_null [of rt accessToken meth path payload]
      apiRequest_success_status [of rt accessToken meth path payload returned_body]
      inv
    by blast
qed

theorem apiRequest_outcomes_witness:
  "apiRequest
      (fixed_reply (Responded False (Parsed (JsonTyped
         \<lparr>message = Some ''invalid param'', code = Some 11255, file_info = []\<rparr>))))
      ''tok'' ''POST'' ''/v2/users/u1/messages'' None
     = (Inl (Error ''API Error [/v2/users/u1/messages]: invalid param''),
        [api_request_of ''tok'' ''POST'' ''/v2/users/u1/messages'' None])
   \<and> failure_kind ''/v2/users/u1/messages''
        (fst (apiRequest
          (fixed_reply (Responded False (Parsed (JsonTyped
             \<lparr>message = Some ''invalid param'', code = Some 11255, file_info = []\<rparr>))))
          ''tok'' ''POST'' ''/v2/users/u1/messages'' None))
     = Some ApiError
   \<and> fst (apiRequest (fixed_reply (Rejected (ErrorObj ''offline''))
             :: api_reply runtime) ''tok'' ''GET'' ''/gateway'' None)
     = Inl (Error ''Network error [/gateway]: offline'')
   \<and> fst (apiRequest (fixed_reply (Responded False (Unparsable (ErrorObj ''Unexpected token'')))
             :: api_reply runtime) ''tok'' ''GET'' ''/gateway'' None)
     = Inl (Error ''Failed to parse response [/gateway]: Unexpected token'')
   \<and> fst (apiRequest (fixed_reply (Responded False (Parsed JsonNull))
             :: api_reply runtime) ''tok'' ''GET'' ''/gateway'' None)
     = Inl (TypeError ''message'')
   \<and> fst (apiRequest
        (fixed_reply (Responded True (Parsed (JsonTyped
           \<lparr>message = None, code = None, file_info = ''f1''\<rparr>))))
        ''tok'' ''GET'' ''/gateway'' None)
     = Inr (JsonTyped \<lparr>message = None, code = None, file_info = ''f1''\<rparr>)"
proof -
  let ?bad = "\<lparr>message = Some ''invalid param'', code = Some 11255, file_info = []\<rparr>"
  let ?good = "\<lparr>message = None, code = None, file_info = ''f1''\<rparr>"
  let ?rbad = "fixed_reply (Responded False (Parsed (JsonTyped ?bad)))"
  let ?rnull = "fixed_reply (Responded False (Parsed JsonNull)) :: api_reply runtime"
  let ?rgood = "fixed_reply (Responded True (Parsed (JsonTyped ?good)))"
  note th1 = apiRequest_outcomes
    [where rt = ?rbad and data = ?bad
       and accessToken = "''tok''" and meth = "''POST''" and path = "''/v2/users/u1/messages''"
       and payload = None]
  have f1: "fetch ?rbad (api_request_of ''tok'' ''POST'' ''/v2/users/u1/messages'' None)
      = Responded False (Parsed (JsonTyped ?bad))"
    by (simp add: fixed_reply_def)
  have a1: "fst (apiRequest ?rbad ''tok'' ''POST'' ''/v2/users/u1/messages'' None)
      = Inl (Error ''API Error [/v2/users/u1/messages]: invalid param'')"
    using th1 f1 by simp
  have a2: "snd (apiRequest ?rbad ''tok'' ''POST'' ''/v2/users/u1/messages'' None)
      = [api_request_of ''tok'' ''POST'' ''/v2/users/u1/messages'' None]"
    using th1 by blast
  have a: "apiRequest ?rbad ''tok'' ''POST'' ''/v2/users/u1/messages'' None
      = (Inl (Error ''API Error [/v2/users/u1/messages]: invalid param''),
         [api_request_of ''tok'' ''POST'' ''/v2/users/u1/messages'' None])"
    using a1 a2 by (simp add: prod_eq_iff)
  have b: "failure_kind ''/v2/users/u1/messages''
        (fst (apiRequest ?rbad ''tok'' ''POST'' ''/v2/users/u1/messages'' None))
      = Some ApiError"
    using th1 f1 by blast
  have c: "fst (apiRequest (fixed_reply (Rejected (ErrorObj ''offline'')) :: api_reply runtime)
        ''tok'' ''GET'' ''/gateway'' None)
      = Inl (Error ''Network error [/gateway]: offline'')"
    using apiRequest_outcomes
      [where rt = "fixed_reply (Rejected (ErrorObj ''offline'')) :: api_reply runtime"
         and err = "ErrorObj ''offline''" and accessToken = "''tok''" and meth = "''GET''"
         and path = "''/gateway''" and payload = None]
    by (simp add: fixed_reply_def)
  have d: "fst (apiRequest
        (fixed_reply (Responded False (Unparsable (ErrorObj ''Unexpected token'')))
           :: api_reply runtime) ''tok'' ''GET'' ''/gateway'' None)
      = Inl (Error ''Failed to parse response [/gateway]: Unexpected token'')"
    using apiRequest_outcomes
      [where rt = "fixed_reply (Responded False (Unparsable (ErrorObj ''Unexpected token'')))
           :: api_reply runtime"
         and err = "ErrorObj ''Unexpected token''" and ok = False and accessToken = "''tok''"
         and meth = "''GET''" and path = "''/gateway''" and payload = None]
    by (simp add: fixed_reply_def)
  have n: "fst (apiRequest ?rnull ''tok'' ''GET'' ''/gateway'' None) = Inl (TypeError ''message'')"
    using apiRequest_outcomes
      [where rt = ?rnull and accessToken = "''tok''" and meth = "''GET''"
         and path = "''/gateway''" and payload = None]
    by (simp add: fixed_reply_def)
  have e: "fst (apiRequest ?rgood ''tok'' ''GET'' ''/gateway'' None) = Inr (JsonTyped ?good)"
    using apiRequest_outcomes
      [where rt = ?rgood and returned_body = "JsonTyped ?good"
         and accessToken = "''tok''" and meth = "''GET''" and path = "''/gateway''"
         and payload = None]
    by (simp add: fixed_reply_def)
  show ?thesis by (intro conjI a b c d n e)
qed

text \<open>
  The claim as stated fails for a failure status whose body parses to \<open>null\<close>: the call
  neither returns nor fails with one of the three kinds; the read of \<open>error.message\<close>
  throws a \<open>TypeError\<close>.
\<close>

theorem apiRequest_null_body_counterexample:
  "fst (apiRequest (fixed_reply (Responded False (Parsed JsonNull)) :: api_reply runtime)
         ''tok'' ''POST'' ''/v2/users/u1/messages'' None)
     = Inl (TypeError ''message'')
   \<and> failure_kind ''/v2/users/u1/messages''
        (fst (apiRequest (fixed_reply (Responded False (Parsed JsonNull)) :: api_reply runtime)
           ''tok'' ''POST'' ''/v2/users/u1/messages'' None))
     = None"
  by (simp add: apiRequest_def Let_def fixed_reply_def failure_kind_def error_kind_of_def)

section \<open>Properties of the message and media facade\<close>

lemma reply_seq_given: "m \<noteq> [] \<Longrightarrow> reply_seq base (Some m) tbl = getNextMsgSeq base m tbl"
  by (simp add: reply_seq_def truthy_str_def)

lemma reply_seq_absent: "reply_seq base None tbl = (1, tbl)"
  by (simp add: reply_seq_def truthy_str_def)

lemma reply_seq_empty: "reply_seq base (Some []) tbl = (1, tbl)"
  by (simp add: reply_seq_def truthy_str_def)

lemma msg_id_spread_simps:
  "m \<noteq> [] \<Longrightarrow> msg_id_spread (Some m) = [(''msg_id'', JStr m)]"
  "msg_id_spread None = []"
  "msg_id_spread (Some []) = []"
  by (simp_all add: msg_id_spread_def truthy_str_def)

lemma sent_field_api_request:
  "sent_field k (snd (apiRequest rt accessToken meth path (Some (JObj fs)))) = [map_of fs k]"
  by (simp add: apiRequest_requests sent_field_def request_field_def api_request_of_def)

lemma sent_field_append: "sent_field k (xs @ ys) = sent_field k xs @ sent_field k ys"
  by (simp add: sent_field_def)

lemma content_spread_other:
  "k \<noteq> ''content'' \<Longrightarrow> map_of (content_spread content) k = None"
  by (simp add: content_spread_def split: option.splits)

lemma text_send_fields:
  "sent_field ''msg_seq''
     (snd (apiRequest rt accessToken meth path (Some (text_message_body content msgSeq msgId))))
     = [Some (JNum msgSeq)]"
  "sent_field ''msg_id''
     (snd (apiRequest rt accessToken meth path (Some (text_message_body content msgSeq msgId))))
     = [map_of (msg_id_spread msgId) ''msg_id'']"
  by (simp_all add: text_message_body_def sent_field_api_request)

lemma media_send_fields:
  "sent_field ''msg_seq''
     (snd (apiRequest rt accessToken meth path
        (Some (media_message_body fileInfo msgSeq content msgId))))
     = [Some (JNum msgSeq)]"
  "sent_field ''msg_id''
     (snd (apiRequest rt accessToken meth path
        (Some (media_message_body fileInfo msgSeq content msgId))))
     = [map_of (msg_id_spread msgId) ''msg_id'']"
  by (simp_all add: media_message_body_def sent_field_api_request content_spread_other
        map_add_def)

lemma channel_send_fields:
  "sent_field ''msg_seq'' (snd (sendChannelMessage rt accessToken channelId content msgId)) = [None]"
  "sent_field ''msg_id'' (snd (sendChannelMessage rt accessToken channelId content msgId))
     = [map_of (msg_id_spread msgId) ''msg_id'']"
  by (simp_all add: sendChannelMessage_def channel_message_body_def sent_field_api_request
        msg_id_spread_def split: option.splits)

lemma proactive_send_fields:
  "sent_field ''msg_seq'' (snd (sendProactiveC2CMessage rt accessToken target content)) = [None]"
  "sent_field ''msg_seq'' (snd (sendProactiveGroupMessage rt accessToken target content)) = [None]"
  by (simp_all add: sendProactiveC2CMessage_def sendProactiveGroupMessage_def
        proactive_message_body_def sent_field_api_request)

lemma upload_fields:
  "sent_field ''msg_seq'' (snd (uploadC2CMedia rt accessToken target fileType media_url flag)) = [None]"
  "sent_field ''msg_seq'' (snd (uploadGroupMedia rt accessToken target fileType media_url flag)) = [None]"
  "sent_field ''msg_id'' (snd (uploadC2CMedia rt accessToken target fileType media_url flag)) = [None]"
  "sent_field ''msg_id'' (snd (uploadGroupMedia rt accessToken target fileType media_url flag)) = [None]"
  by (simp_all add: uploadC2CMedia_def uploadGroupMedia_def upload_body_def sent_field_api_request)

lemmas numbered_send_defs =
  sendC2CMessage_def sendGroupMessage_def sendC2CMediaMessage_def sendGroupMediaMessage_def

lemma numbered_send_given:
  assumes "m \<noteq> []"
  shows
    "sent_field ''msg_seq''
        (snd (snd (sendC2CMessage rt base tbl accessToken target content (Some m))))
      = [Some (JNum (fst (getNextMsgSeq base m tbl)))]"
    "fst (snd (sendC2CMessage rt base tbl accessToken target content (Some m)))
      = snd (getNextMsgSeq base m tbl)"
    "sent_field ''msg_seq''
        (snd (snd (sendGroupMessage rt base tbl accessToken target content (Some m))))
      = [Some (JNum (fst (getNextMsgSeq base m tbl)))]"
    "fst (snd (sendGroupMessage rt base tbl accessToken target content (Some m)))
      = snd (getNextMsgSeq base m tbl)"
    "sent_field ''msg_seq''
        (snd (snd (sendC2CMediaMessage rt base tbl accessToken target fileInfo (Some m) caption)))
      = [Some (JNum (fst (getNextMsgSeq base m tbl)))]"
    "fst (snd (sendC2CMediaMessage rt base tbl accessToken target fileInfo (Some m) caption))
      = snd (getNextMsgSeq base m tbl)"
    "sent_field ''msg_seq''
        (snd (snd (sendGroupMediaMessage rt base tbl accessToken target fileInfo (Some m) caption)))
      = [Some (JNum (fst (getNextMsgSeq base m tbl)))]"
    "fst (snd (sendGroupMediaMessage rt base tbl accessToken target fileInfo (Some m) caption))
      = snd (getNextMsgSeq base m tbl)"
  using assms
  by (simp_all add: numbered_send_defs split_beta reply_seq_given text_send_fields
        media_send_fields)

lemma numbered_send_falsy:
  assumes "msgId = None \<or> msgId = Some []"
  shows
    "sent_field ''msg_seq''
        (snd (snd (sendC2CMessage rt base tbl accessToken target content msgId)))
      = [Some (JNum 1)]"
    "sent_field ''msg_id''
        (snd (snd (sendC2CMessage rt base tbl accessToken target content msgId)))
      = [None]"
    "fst (snd (sendC2CMessage rt base tbl accessToken target content msgId)) = tbl"
    "sent_field ''msg_seq''
        (snd (snd (sendGroupMessage rt base tbl accessToken target content msgId)))
      = [Some (JNum 1)]"
    "sent_field ''msg_id''
        (snd (snd (sendGroupMessage rt base tbl accessToken target content msgId)))
      = [None]"
    "fst (snd (sendGroupMessage rt base tbl accessToken target content msgId)) = tbl"
    "sent_field ''msg_seq''
        (snd (snd (sendC2CMediaMessage rt base tbl accessToken target fileInfo msgId caption)))
      = [Some (JNum 1)]"
    "sent_field ''msg_id''
        (snd (snd (sendC2CMediaMessage rt base tbl accessToken target fileInfo msgId caption)))
      = [None]"
    "fst (snd (sendC2CMediaMessage rt base tbl accessToken target fileInfo msgId caption)) = tbl"
    "sent_field ''msg_seq''
        (snd (snd (sendGroupMediaMessage rt base tbl accessToken target fileInfo msgId caption)))
      = [Some (JNum 1)]"
    "sent_field ''msg_id''
        (snd (snd (sendGroupMediaMessage rt base tbl accessToken target fileInfo msgId caption)))
      = [None]"
    "fst (snd (sendGroupMediaMessage rt base tbl accessToken target fileInfo msgId caption)) = tbl"
  using assms
  by (auto simp: numbered_send_defs split_beta reply_seq_absent reply_seq_empty
        text_send_fields media_send_fields msg_id_spread_simps)

text \<open>The image sends, by what the upload came to.\<close>

lemma image_send_uploaded:
  "fst (uploadC2CMedia rt accessToken target IMAGE imageUrl False) = Inr (JsonTyped u) \<Longrightarrow>
   sendC2CImageMessage rt base tbl accessToken target imageUrl msgId caption
     = (fst (sendC2CMediaMessage rt base tbl accessToken target (file_info u) msgId caption),
        fst (snd (sendC2CMediaMessage rt base tbl accessToken target (file_info u) msgId caption)),
        snd (uploadC2CMedia rt accessToken target IMAGE imageUrl False)
        @ snd (snd (sendC2CMediaMessage rt base tbl accessToken target (file_info u)
                     msgId caption)))"
  "fst (uploadGroupMedia rt accessToken target IMAGE imageUrl False) = Inr (JsonTyped u) \<Longrightarrow>
   sendGroupImageMessage rt base tbl accessToken target imageUrl msgId caption
     = (fst (sendGroupMediaMessage rt base tbl accessToken target (file_info u) msgId caption),
        fst (snd (sendGroupMediaMessage rt base tbl accessToken target (file_info u)
                    msgId caption)),
        snd (uploadGroupMedia rt accessToken target IMAGE imageUrl False)
        @ snd (snd (sendGroupMediaMessage rt base tbl accessToken target (file_info u)
                     msgId caption)))"
  by (cases "uploadC2CMedia rt accessToken target IMAGE imageUrl False";
      cases "uploadGroupMedia rt accessToken target IMAGE imageUrl False";
      simp add: sendC2CImageMessage_def sendGroupImageMessage_def split_beta)+

lemma image_send_upload_failed:
  "fst (uploadC2CMedia rt accessToken target IMAGE imageUrl False) = Inl e \<Longrightarrow>
   sendC2CImageMessage rt base tbl accessToken target imageUrl msgId caption
     = (Inl e, tbl, snd (uploadC2CMedia rt accessToken target IMAGE imageUrl False))"
  "fst (uploadGroupMedia rt accessToken target IMAGE imageUrl False) = Inl e \<Longrightarrow>
   sendGroupImageMessage rt base tbl accessToken target imageUrl msgId caption
     = (Inl e, tbl, snd (uploadGroupMedia rt accessToken target IMAGE imageUrl False))"
  by (cases "uploadC2CMedia rt accessToken target IMAGE imageUrl False";
      cases "uploadGroupMedia rt accessToken target IMAGE imageUrl False";
      simp add: sendC2CImageMessage_def sendGroupImageMessage_def split_beta)+

lemma image_send_upload_null:
  "fst (uploadC2CMedia rt accessToken target IMAGE imageUrl False) = Inr JsonNull \<Longrightarrow>
   sendC2CImageMessage rt base tbl accessToken target imageUrl msgId caption
     = (Inl (TypeError ''file_info''), tbl,
        snd (uploadC2CMedia rt accessToken target IMAGE imageUrl False))"
  "fst (uploadGroupMedia rt accessToken target IMAGE imageUrl False) = Inr JsonNull \<Longrightarrow>
   sendGroupImageMessage rt base tbl accessToken target imageUrl msgId caption
     = (Inl (TypeError ''file_info''), tbl,
        snd (uploadGroupMedia rt accessToken target IMAGE imageUrl False))"
  by (cases "uploadC2CMedia rt accessToken target IMAGE imageUrl False";
      cases "uploadGroupMedia rt accessToken target IMAGE imageUrl False";
      simp add: sendC2CImageMessage_def sendGroupImageMessage_def split_beta)+

lemma image_send_not_uploaded:
  assumes "fst (uploadC2CMedia rt accessToken target IMAGE imageUrl False) = Inl e
           \<or> fst (uploadC2CMedia rt accessToken target IMAGE imageUrl False) = Inr JsonNull"
  shows "sent_field ''msg_seq''
           (snd (snd (sendC2CImageMessage rt base tbl accessToken target imageUrl msgId caption)))
         = [None]
       \<and> sent_field ''msg_id''
           (snd (snd (sendC2CImageMessage rt base tbl accessToken target imageUrl msgId caption)))
         = [None]
       \<and> fst (snd (sendC2CImageMessage rt base tbl accessToken target imageUrl msgId caption))
         = tbl"
  using assms by (auto simp: image_send_upload_failed image_send_upload_null upload_fields)

lemma group_image_send_not_uploaded:
  assumes "fst (uploadGroupMedia rt accessToken target IMAGE imageUrl False) = Inl e
           \<or> fst (uploadGroupMedia rt accessToken target IMAGE imageUrl False) = Inr JsonNull"
  shows "sent_field ''msg_seq''
           (snd (snd (sendGroupImageMessage rt base tbl accessToken target imageUrl msgId caption)))
         = [None]
       \<and> sent_field ''msg_id''
           (snd (snd (sendGroupImageMessage rt base tbl accessToken target imageUrl msgId caption)))
         = [None]
       \<and> fst (snd (sendGroupImageMessage rt base tbl accessToken target imageUrl msgId caption))
         = tbl"
  using assms by (auto simp: image_send_upload_failed image_send_upload_null upload_fields)

lemma image_send_given:
  assumes "m \<noteq> []"
  shows
    "fst (uploadC2CMedia rt accessToken target IMAGE imageUrl False) = Inr (JsonTyped u) \<Longrightarrow>
     sent_field ''msg_seq''
        (snd (snd (sendC2CImageMessage rt base tbl accessToken target imageUrl (Some m) caption)))
       = [None, Some (JNum (fst (getNextMsgSeq base m tbl)))]
     \<and> fst (snd (sendC2CImageMessage rt base tbl accessToken target imageUrl (Some m) caption))
       = snd (getNextMsgSeq base m tbl)"
    "fst (uploadGroupMedia rt accessToken target IMAGE imageUrl False) = Inr (JsonTyped u) \<Longrightarrow>
     sent_field ''msg_seq''
        (snd (snd (sendGroupImageMessage rt base tbl accessToken target imageUrl (Some m) caption)))
       = [None, Some (JNum (fst (getNextMsgSeq base m tbl)))]
     \<and> fst (snd (sendGroupImageMessage rt base tbl accessToken target imageUrl (Some m) caption))
       = snd (getNextMsgSeq base m tbl)"
  using assms
  by (simp_all add: image_send_uploaded sent_field_append upload_fields numbered_send_given)

lemma image_send_falsy:
  assumes "msgId = None \<or> msgId = Some []"
  shows
    "fst (uploadC2CMedia rt accessToken target IMAGE imageUrl False) = Inr (JsonTyped u) \<Longrightarrow>
     sent_field ''msg_seq''
        (snd (snd (sendC2CImageMessage rt base tbl accessToken target imageUrl msgId caption)))
       = [None, Some (JNum 1)]
     \<and> sent_field ''msg_id''
        (snd (snd (sendC2CImageMessage rt base tbl accessToken target imageUrl msgId caption)))
       = [None, None]
     \<and> fst (snd (sendC2CImageMessage rt base tbl accessToken target imageUrl msgId caption))
       = tbl"
    "fst (uploadGroupMedia rt accessToken target IMAGE imageUrl False) = Inr (JsonTyped u) \<Longrightarrow>
     sent_field ''msg_seq''
        (snd (snd (sendGroupImageMessage rt base tbl accessToken target imageUrl msgId caption)))
       = [None, Some (JNum 1)]
     \<and> sent_field ''msg_id''
        (snd (snd (sendGroupImageMessage rt base tbl accessToken target imageUrl msgId caption)))
       = [None, None]
     \<and> fst (snd (sendGroupImageMessage rt base tbl accessToken target imageUrl msgId caption))
       = tbl"
  using assms
  by (simp_all add: image_send_uploaded sent_field_append upload_fields numbered_send_falsy)

lemma image_send_table_falsy:
  assumes "msgId = None \<or> msgId = Some []"
  shows
    "fst (snd (sendC2CImageMessage rt base tbl accessToken target imageUrl msgId caption)) = tbl"
    "fst (snd (sendGroupImageMessage rt base tbl accessToken target imageUrl msgId caption)) = tbl"
proof -
  show "fst (snd (sendC2CImageMessage rt base tbl accessToken target imageUrl msgId caption)) = tbl"
  proof (cases "fst (uploadC2CMedia rt accessToken target IMAGE imageUrl False)")
    case (Inl e)
    then show ?thesis by (simp add: image_send_upload_failed)
  next
    case (Inr v)
    then show ?thesis
      using assms
      by (cases v) (simp_all add: image_send_upload_null image_send_uploaded numbered_send_falsy)
  qed
  show "fst (snd (sendGroupImageMessage rt base tbl accessToken target imageUrl msgId caption)) = tbl"
  proof (cases "fst (uploadGroupMedia rt accessToken target IMAGE imageUrl False)")
    case (Inl e)
    then show ?thesis by (simp add: image_send_upload_failed)
  next
    case (Inr v)
    then show ?thesis
      using assms
      by (cases v) (simp_all add: image_send_upload_null image_send_uploaded numbered_send_falsy)
  qed
qed

lemma empty_msgId_same:
  "sendC2CMessage rt base tbl accessToken target content (Some [])
     = sendC2CMessage rt base tbl accessToken target content None"
  "sendGroupMessage rt base tbl accessToken target content (Some [])
     = sendGroupMessage rt base tbl accessToken target content None"
  "sendC2CMediaMessage rt base tbl accessToken target fileInfo (Some []) caption
     = sendC2CMediaMessage rt base tbl accessToken target fileInfo None caption"
  "sendGroupMediaMessage rt base tbl accessToken target fileInfo (Some []) caption
     = sendGroupMediaMessage rt base tbl accessToken target fileInfo None caption"
  "sendChannelMessage rt accessToken target content (Some [])
     = sendChannelMessage rt accessToken target content None"
  by (simp_all add: numbered_send_defs sendChannelMessage_def reply_seq_empty reply_seq_absent
        text_message_body_def media_message_body_def channel_message_body_def
        msg_id_spread_simps)

lemma empty_msgId_same_image:
  "sendC2CImageMessage rt base tbl accessToken target imageUrl (Some []) caption
     = sendC2CImageMessage rt base tbl accessToken target imageUrl None caption"
  "sendGroupImageMessage rt base tbl accessToken target imageUrl (Some []) caption
     = sendGroupImageMessage rt base tbl accessToken target imageUrl None caption"
  by (simp_all add: sendC2CImageMessage_def sendGroupImageMessage_def empty_msgId_same
        split: prod.splits sum.splits json_value.splits)

lemma getNextMsgSeq_first: "getNextMsgSeq base m [] = (base + 1, [(m, 1)])"
  by (simp add: getNextMsgSeq_def counter_def map_get_def map_set_def map_size_def Let_def)

text \<open>
  C7 (as amended). The C2C and group sends of text and of media, given a non-empty
  message identifier, take their sequence number from \<open>getNextMsgSeq\<close> keyed by that
  identifier, put it in the request body as \<open>msg_seq\<close> and leave the table that call
  leaves; given no identifier they send \<open>msg_seq\<close> 1 and leave the table as it was. The
  image sends do the same in the send that follows a successful upload, whose own request
  has no \<open>msg_seq\<close>; when the upload fails or its result is \<open>null\<close>, only the upload is
  fetched and the table is as it was. The channel send and the two proactive sends have
  no \<open>msg_seq\<close> in their body and do not touch the table.
\<close>

theorem numbered_sends_use_generator:
  assumes "m \<noteq> []"
  shows
   "sent_field ''msg_seq''
        (snd (snd (sendC2CMessage rt base tbl accessToken target content (Some m))))
      = [Some (JNum (fst (getNextMsgSeq base m tbl)))]
    \<and> fst (snd (sendC2CMessage rt base tbl accessToken target content (Some m)))
      = snd (getNextMsgSeq base m tbl)
    \<and> sent_field ''msg_seq''
        (snd (snd (sendGroupMessage rt base tbl accessToken target content (Some m))))
      = [Some (JNum (fst (getNextMsgSeq base m tbl)))]
    \<and> fst (snd (sendGroupMessage rt base tbl accessToken target content (Some m)))
      = snd (getNextMsgSeq base m tbl)
    \<and> sent_field ''msg_seq''
        (snd (snd (sendC2CMediaMessage rt base tbl accessToken target fileInfo (Some m) caption)))
      = [Some (JNum (fst (getNextMsgSeq base m tbl)))]
    \<and> fst (snd (sendC2CMediaMessage rt base tbl accessToken target fileInfo (Some m) caption))
      = snd (getNextMsgSeq base m tbl)
    \<and> sent_field ''msg_seq''
        (snd (snd (sendGroupMediaMessage rt base tbl accessToken target fileInfo (Some m) caption)))
      = [Some (JNum (fst (getNextMsgSeq base m tbl)))]
    \<and> fst (snd (sendGroupMediaMessage rt base tbl accessToken target fileInfo (Some m) caption))
      = snd (getNextMsgSeq base m tbl)
    \<and> sent_field ''msg_seq''
        (snd (snd (sendC2CMessage rt base tbl accessToken target content None)))
      = [Some (JNum 1)]
    \<and> fst (snd (sendC2CMessage rt base tbl accessToken target content None)) = tbl
    \<and> sent_field ''msg_seq''
        (snd (snd (sendGroupMessage rt base tbl accessToken target content None)))
      = [Some (JNum 1)]
    \<and> fst (snd (sendGroupMessage rt base tbl accessToken target content None)) = tbl
    \<and> sent_field ''msg_seq''
        (snd (snd (sendC2CMediaMessage rt base tbl accessToken target fileInfo None caption)))
      = [Some (JNum 1)]
    \<and> fst (snd (sendC2CMediaMessage rt base tbl accessToken target fileInfo None caption)) = tbl
    \<and> sent_field ''msg_seq''
        (snd (snd (sendGroupMediaMessage rt base tbl accessToken target fileInfo None caption)))
      = [Some (JNum 1)]
    \<and> fst (snd (sendGroupMediaMessage rt base tbl accessToken target fileInfo None caption)) = tbl
    \<and> (fst (uploadC2CMedia rt accessToken target IMAGE imageUrl False) = Inr (JsonTyped u) \<longrightarrow>
         sent_field ''msg_seq''
           (snd (snd (sendC2CImageMessage rt base tbl accessToken target imageUrl (Some m) caption)))
         = [None, Some (JNum (fst (getNextMsgSeq base m tbl)))]
         \<and> fst (snd (sendC2CImageMessage rt base tbl accessToken target imageUrl (Some m) caption))
         = snd (getNextMsgSeq base m tbl)
         \<and> sent_field ''msg_seq''
           (snd (snd (sendC2CImageMessage rt base tbl accessToken target imageUrl None caption)))
         = [None, Some (JNum 1)]
         \<and> fst (snd (sendC2CImageMessage rt base tbl accessToken target imageUrl None caption))
         = tbl)
    \<and> (fst (uploadGroupMedia rt accessToken target IMAGE imageUrl False) = Inr (JsonTyped u) \<longrightarrow>
         sent_field ''msg_seq''
           (snd (snd (sendGroupImageMessage rt base tbl accessToken target imageUrl (Some m) caption)))
         = [None, Some (JNum (fst (getNextMsgSeq base m tbl)))]
         \<and> fst (snd (sendGroupImageMessage rt base tbl accessToken target imageUrl (Some m) caption))
         = snd (getNextMsgSeq base m tbl)
         \<and> sent_field ''msg_seq''
           (snd (snd (sendGroupImageMessage rt base tbl accessToken target imageUrl None caption)))
         = [None, Some (JNum 1)]
         \<and> fst (snd (sendGroupImageMessage rt base tbl accessToken target imageUrl None caption))
         = tbl)
    \<and> (fst (uploadC2CMedia rt accessToken target IMAGE imageUrl False) = Inl e
        \<or> fst (uploadC2CMedia rt accessToken target IMAGE imageUrl False) = Inr JsonNull \<longrightarrow>
         sent_field ''msg_seq''
           (snd (snd (sendC2CImageMessage rt base tbl accessToken target imageUrl msgId caption)))
         = [None]
         \<and> fst (snd (sendC2CImageMessage rt base tbl accessToken target imageUrl msgId caption))
         = tbl)
    \<and> (fst (uploadGroupMedia rt accessToken target IMAGE imageUrl False) = Inl e
        \<or> fst (uploadGroupMedia rt accessToken target IMAGE imageUrl False) = Inr JsonNull \<longrightarrow>
         sent_field ''msg_seq''
           (snd (snd (sendGroupImageMessage rt base tbl accessToken target imageUrl msgId caption)))
         = [None]
         \<and> fst (snd (sendGroupImageMessage rt base tbl accessToken target imageUrl msgId caption))
         = tbl)
    \<and> sent_field ''msg_seq'' (snd (sendChannelMessage rt accessToken target content msgId))
      = [None]
    \<and> sent_field ''msg_seq'' (snd (sendProactiveC2CMessage rt accessToken target content))
      = [None]
    \<and> sent_field ''msg_seq'' (snd (sendProactiveGroupMessage rt accessToken target content))
      = [None]"
proof -
  have absent: "None = None \<or> (None :: string option) = Some []" by simp
  note given = numbered_send_given [OF assms, of rt base tbl accessToken target]
  note falsy = numbered_send_falsy [OF absent, of rt base tbl accessToken target]
  have c2c_image:
    "sent_field ''msg_seq''
       (snd (snd (sendC2CImageMessage rt base tbl accessToken target imageUrl (Some m) caption)))
     = [None, Some (JNum (fst (getNextMsgSeq base m tbl)))]
     \<and> fst (snd (sendC2CImageMessage rt base tbl accessToken target imageUrl (Some m) caption))
     = snd (getNextMsgSeq base m tbl)
     \<and> sent_field ''msg_seq''
       (snd (snd (sendC2CImageMessage rt base tbl accessToken target imageUrl None caption)))
     = [None, Some (JNum 1)]
     \<and> fst (snd (sendC2CImageMessage rt base tbl accessToken target imageUrl None caption))
     = tbl"
    if up: "fst (uploadC2CMedia rt accessToken target IMAGE imageUrl False) = Inr (JsonTyped u)"
    using image_send_given(1) [OF assms up] image_send_falsy(1) [OF absent up] by simp
  have group_image:
    "sent_field ''msg_seq''
       (snd (snd (sendGroupImageMessage rt base tbl accessToken target imageUrl (Some m) caption)))
     = [None, Some (JNum (fst (getNextMsgSeq base m tbl)))]
     \<and> fst (snd (sendGroupImageMessage rt base tbl accessToken target imageUrl (Some m) caption))
     = snd (getNextMsgSeq base m tbl)
     \<and> sent_field ''msg_seq''
       (snd (snd (sendGroupImageMessage rt base tbl accessToken target imageUrl None caption)))
     = [None, Some (JNum 1)]
     \<and> fst (snd (sendGroupImageMessage rt base tbl accessToken target imageUrl None caption))
     = tbl"
    if up: "fst (uploadGroupMedia rt accessToken target IMAGE imageUrl False) = Inr (JsonTyped u)"
    using image_send_given(2) [OF assms up] image_send_falsy(2) [OF absent up] by simp
  have c2c_none:
    "sent_field ''msg_seq''
       (snd (snd (sendC2CImageMessage rt base tbl accessToken target imageUrl msgId caption)))
     = [None]
     \<and> fst (snd (sendC2CImageMessage rt base tbl accessToken target imageUrl msgId caption))
     = tbl"
    if up: "fst (uploadC2CMedia rt accessToken target IMAGE imageUrl False) = Inl e
        \<or> fst (uploadC2CMedia rt accessToken target IMAGE imageUrl False) = Inr JsonNull"
    using image_send_not_uploaded [OF up] by simp
  have group_none:
    "sent_field ''msg_seq''
       (snd (snd (sendGroupImageMessage rt base tbl accessToken target imageUrl msgId caption)))
     = [None]
     \<and> fst (snd (sendGroupImageMessage rt base tbl accessToken target imageUrl msgId caption))
     = tbl"
    if up: "fst (uploadGroupMedia rt accessToken target IMAGE imageUrl False) = Inl e
        \<or> fst (uploadGroupMedia rt accessToken target IMAGE imageUrl False) = Inr JsonNull"
    using group_image_send_not_uploaded [OF up] by simp
  show ?thesis
    by (intro conjI impI given falsy(1,3,4,6,7,9,10,12) c2c_image group_image c2c_none
          group_none channel_send_fields(1) proactive_send_fields)
qed

theorem numbered_sends_use_generator_witness:
  "''m1'' \<noteq> []
   \<and> sent_field ''msg_seq''
        (snd (snd (sendC2CMessage (fixed_reply (Rejected (ErrorObj ''offline'')) :: api_reply runtime)
           100 [] ''tok'' ''u1'' ''hi'' (Some ''m1''))))
      = [Some (JNum 101)]
   \<and> fst (snd (sendC2CMessage (fixed_reply (Rejected (ErrorObj ''offline'')) :: api_reply runtime)
           100 [] ''tok'' ''u1'' ''hi'' (Some ''m1'')))
      = [(''m1'', 1)]
   \<and> sent_field ''msg_seq''
        (snd (snd (sendGroupMessage (fixed_reply (Rejected (ErrorObj ''offline'')) :: api_reply runtime)
           100 [] ''tok'' ''g1'' ''hi'' (Some ''m1''))))
      = [Some (JNum 101)]
   \<and> fst (uploadC2CMedia
        (fixed_reply (Responded True
           (Parsed (JsonTyped \<lparr>message = None, code = None, file_info = ''f1''\<rparr>))))
        ''tok'' ''u1'' IMAGE ''http://img'' False)
      = Inr (JsonTyped \<lparr>message = None, code = None, file_info = ''f1''\<rparr>)
   \<and> sent_field ''msg_seq''
        (snd (snd (sendC2CImageMessage
           (fixed_reply (Responded True
              (Parsed (JsonTyped \<lparr>message = None, code = None, file_info = ''f1''\<rparr>))))
           100 [] ''tok'' ''u1'' ''http://img'' (Some ''m1'') None)))
      = [None, Some (JNum 101)]
   \<and> fst (snd (sendC2CImageMessage
           (fixed_reply (Responded True
              (Parsed (JsonTyped \<lparr>message = None, code = None, file_info = ''f1''\<rparr>))))
           100 [] ''tok'' ''u1'' ''http://img'' (Some ''m1'') None))
      = [(''m1'', 1)]
   \<and> fst (uploadC2CMedia (fixed_reply (Rejected (ErrorObj ''offline'')) :: api_reply runtime)
        ''tok'' ''u1'' IMAGE ''http://img'' False)
      = Inl (Error ''Network error [/v2/users/u1/files]: offline'')
   \<and> sent_field ''msg_seq''
        (snd (snd (sendC2CImageMessage
           (fixed_reply (Rejected (ErrorObj ''offline'')) :: api_reply runtime)
           100 [] ''tok'' ''u1'' ''http://img'' (Some ''m1'') None)))
      = [None]
   \<and> fst (snd (sendC2CImageMessage
           (fixed_reply (Rejected (ErrorObj ''offline'')) :: api_reply runtime)
           100 [] ''tok'' ''u1'' ''http://img'' (Some ''m1'') None))
      = []"
proof -
  let ?off = "fixed_reply (Rejected (ErrorObj ''offline'')) :: api_reply runtime"
  let ?u = "\<lparr>message = None, code = None, file_info = ''f1''\<rparr>"
  let ?on = "fixed_reply (Responded True (Parsed (JsonTyped ?u)))"
  have n: "''m1'' \<noteq> []" by simp
  note th = numbered_sends_use_generator [OF n, where base = 100 and tbl = "[]"
      and accessToken = "''tok''" and imageUrl = "''http://img''" and caption = None]
  have a: "sent_field ''msg_seq''
        (snd (snd (sendC2CMessage ?off 100 [] ''tok'' ''u1'' ''hi'' (Some ''m1''))))
      = [Some (JNum 101)]"
    using th [where rt = ?off and target = "''u1''" and content = "''hi''"]
    by (simp add: getNextMsgSeq_first)
  have b: "fst (snd (sendC2CMessage ?off 100 [] ''tok'' ''u1'' ''hi'' (Some ''m1''))) = [(''m1'', 1)]"
    using th [where rt = ?off and target = "''u1''" and content = "''hi''"]
    by (simp add: getNextMsgSeq_first)
  have c: "sent_field ''msg_seq''
        (snd (snd (sendGroupMessage ?off 100 [] ''tok'' ''g1'' ''hi'' (Some ''m1''))))
      = [Some (JNum 101)]"
    using th [where rt = ?off and target = "''g1''" and content = "''hi''"]
    by (simp add: getNextMsgSeq_first)
  have up: "fst (uploadC2CMedia ?on ''tok'' ''u1'' IMAGE ''http://img'' False) = Inr (JsonTyped ?u)"
    by (simp add: uploadC2CMedia_def apiRequest_def fixed_reply_def Let_def)
  have down: "fst (uploadC2CMedia ?off ''tok'' ''u1'' IMAGE ''http://img'' False)
      = Inl (Error ''Network error [/v2/users/u1/files]: offline'')"
    by (simp add: uploadC2CMedia_def apiRequest_def fixed_reply_def Let_def)
  note th_on = th [where rt = ?on and target = "''u1''" and u = ?u, THEN conjunct2, THEN conjunct2,
      THEN conjunct2, THEN conjunct2, THEN conjunct2, THEN conjunct2, THEN conjunct2,
      THEN conjunct2, THEN conjunct2, THEN conjunct2, THEN conjunct2, THEN conjunct2,
      THEN conjunct2, THEN conjunct2, THEN conjunct2, THEN conjunct2, THEN conjunct1]
  have d: "sent_field ''msg_seq''
        (snd (snd (sendC2CImageMessage ?on 100 [] ''tok'' ''u1'' ''http://img'' (Some ''m1'') None)))
      = [None, Some (JNum 101)]"
    using th_on up by (simp add: getNextMsgSeq_first)
  have e: "fst (snd (sendC2CImageMessage ?on 100 [] ''tok'' ''u1'' ''http://img'' (Some ''m1'') None))
      = [(''m1'', 1)]"
    using th_on up by (simp add: getNextMsgSeq_first)
  note th_off = th [where rt = ?off and target = "''u1''"
      and e = "Error ''Network error [/v2/users/u1/files]: offline''" and msgId = "Some ''m1''",
      THEN conjunct2, THEN conjunct2,
      THEN conjunct2, THEN conjunct2, THEN conjunct2, THEN conjunct2, THEN conjunct2,
      THEN conjunct2, THEN conjunct2, THEN conjunct2, THEN conjunct2, THEN conjunct2,
      THEN conjunct2, THEN conjunct2, THEN conjunct2, THEN conjunct2, THEN conjunct2,
      THEN conjunct2, THEN conjunct1]
  have f: "sent_field ''msg_seq''
        (snd (snd (sendC2CImageMessage ?off 100 [] ''tok'' ''u1'' ''http://img'' (Some ''m1'') None)))
      = [None]"
    using th_off down by blast
  have g: "fst (snd (sendC2CImageMessage ?off 100 [] ''tok'' ''u1'' ''http://img'' (Some ''m1'') None))
      = []"
    using th_off down by blast
  show ?thesis by (intro conjI n a b c up d e down f g)
qed

text \<open>
  The claim as stated fails for the channel send, which given the identifier \<open>m1\<close> sends
  \<open>msg_id\<close> and no \<open>msg_seq\<close>, and for the proactive sends, which take no identifier and
  send no \<open>msg_seq\<close> either, where the claim has \<open>msg_seq\<close> 1.
\<close>

theorem channel_send_counterexample:
  "sent_field ''msg_id''
      (snd (sendChannelMessage (fixed_reply (Rejected (ErrorObj ''offline'')) :: api_reply runtime)
         ''tok'' ''c1'' ''hi'' (Some ''m1'')))
     = [Some (JStr ''m1'')]
   \<and> sent_field ''msg_seq''
      (snd (sendChannelMessage (fixed_reply (Rejected (ErrorObj ''offline'')) :: api_reply runtime)
         ''tok'' ''c1'' ''hi'' (Some ''m1'')))
     = [None]
   \<and> sent_field ''msg_seq''
      (snd (sendProactiveC2CMessage
         (fixed_reply (Rejected (ErrorObj ''offline'')) :: api_reply runtime)
         ''tok'' ''u1'' ''hi''))
     = [None]"
  by (simp add: channel_send_fields proactive_send_fields msg_id_spread_simps)

text \<open>
  C10 (as amended). For every send operation with an optional \<open>msgId\<close>, the empty string
  gives exactly the outcome, the table and the requests that an absent \<open>msgId\<close> gives. For
  the C2C and group sends of text and of media the one request carries \<open>msg_seq\<close> 1 and no
  \<open>msg_id\<close>, and the table is as it was. The image sends leave the table as it was; after
  a successful upload they fetch the upload, with neither field, and the send, with
  \<open>msg_seq\<close> 1 and no \<open>msg_id\<close>; when the upload fails or its result is \<open>null\<close> they
  fetch the upload only. The channel send carries neither \<open>msg_id\<close> nor \<open>msg_seq\<close>.
\<close>

theorem empty_msgId_is_absent_msgId:
  "sendC2CMessage rt base tbl accessToken target content (Some [])
     = sendC2CMessage rt base tbl accessToken target content None
   \<and> sendGroupMessage rt base tbl accessToken target content (Some [])
     = sendGroupMessage rt base tbl accessToken target content None
   \<and> sendC2CMediaMessage rt base tbl accessToken target fileInfo (Some []) caption
     = sendC2CMediaMessage rt base tbl accessToken target fileInfo None caption
   \<and> sendGroupMediaMessage rt base tbl accessToken target fileInfo (Some []) caption
     = sendGroupMediaMessage rt base tbl accessToken target fileInfo None caption
   \<and> sendC2CImageMessage rt base tbl accessToken target imageUrl (Some []) caption
     = sendC2CImageMessage rt base tbl accessToken target imageUrl None caption
   \<and> sendGroupImageMessage rt base tbl accessToken target imageUrl (Some []) caption
     = sendGroupImageMessage rt base tbl accessToken target imageUrl None caption
   \<and> sendChannelMessage rt accessToken target content (Some [])
     = sendChannelMessage rt accessToken target content None
   \<and> sent_field ''msg_seq''
        (snd (snd (sendC2CMessage rt base tbl accessToken target content (Some []))))
     = [Some (JNum 1)]
   \<and> sent_field ''msg_id''
        (snd (snd (sendC2CMessage rt base tbl accessToken target content (Some []))))
     = [None]
   \<and> fst (snd (sendC2CMessage rt base tbl accessToken target content (Some []))) = tbl
   \<and> sent_field ''msg_seq''
        (snd (snd (sendGroupMessage rt base tbl accessToken target content (Some []))))
     = [Some (JNum 1)]
   \<and> sent_field ''msg_id''
        (snd (snd (sendGroupMessage rt base tbl accessToken target content (Some []))))
     = [None]
   \<and> fst (snd (sendGroupMessage rt base tbl accessToken target content (Some []))) = tbl
   \<and> sent_field ''msg_seq''
        (snd (snd (sendC2CMediaMessage rt base tbl accessToken target fileInfo (Some []) caption)))
     = [Some (JNum 1)]
   \<and> sent_field ''msg_id''
        (snd (snd (sendC2CMediaMessage rt base tbl accessToken target fileInfo (Some []) caption)))
     = [None]
   \<and> fst (snd (sendC2CMediaMessage rt base tbl accessToken target fileInfo (Some []) caption)) = tbl
   \<and> sent_field ''msg_seq''
        (snd (snd (sendGroupMediaMessage rt base tbl accessToken target fileInfo (Some []) caption)))
     = [Some (JNum 1)]
   \<and> sent_field ''msg_id''
        (snd (snd (sendGroupMediaMessage rt base tbl accessToken target fileInfo (Some []) caption)))
     = [None]
   \<and> fst (snd (sendGroupMediaMessage rt base tbl accessToken target fileInfo (Some []) caption)) = tbl
   \<and> fst (snd (sendC2CImageMessage rt base tbl accessToken target imageUrl (Some []) caption)) = tbl
   \<and> fst (snd (sendGroupImageMessage rt base tbl accessToken target imageUrl (Some []) caption)) = tbl
   \<and> (fst (uploadC2CMedia rt accessToken target IMAGE imageUrl False) = Inr (JsonTyped u) \<longrightarrow>
        sent_field ''msg_seq''
          (snd (snd (sendC2CImageMessage rt base tbl accessToken target imageUrl (Some []) caption)))
        = [None, Some (JNum 1)]
        \<and> sent_field ''msg_id''
          (snd (snd (sendC2CImageMessage rt base tbl accessToken target imageUrl (Some []) caption)))
        = [None, None])
   \<and> (fst (uploadGroupMedia rt accessToken target IMAGE imageUrl False) = Inr (JsonTyped u) \<longrightarrow>
        sent_field ''msg_seq''
          (snd (snd (sendGroupImageMessage rt base tbl accessToken target imageUrl (Some []) caption)))
        = [None, Some (JNum 1)]
        \<and> sent_field ''msg_id''
          (snd (snd (sendGroupImageMessage rt base tbl accessToken target imageUrl (Some []) caption)))
        = [None, None])
   \<and> (fst (uploadC2CMedia rt accessToken target IMAGE imageUrl False) = Inl e
       \<or> fst (uploadC2CMedia rt accessToken target IMAGE imageUrl False) = Inr JsonNull \<longrightarrow>
        sent_field ''msg_seq''
          (snd (snd (sendC2CImageMessage rt base tbl accessToken target imageUrl (Some []) caption)))
        = [None]
        \<and> sent_field ''msg_id''
          (snd (snd (sendC2CImageMessage rt base tbl accessToken target imageUrl (Some []) caption)))
        = [None])
   \<and> (fst (uploadGroupMedia rt accessToken target IMAGE imageUrl False) = Inl e
       \<or> fst (uploadGroupMedia rt accessToken target IMAGE imageUrl False) = Inr JsonNull \<longrightarrow>
        sent_field ''msg_seq''
          (snd (snd (sendGroupImageMessage rt base tbl accessToken target imageUrl (Some []) caption)))
        = [None]
        \<and> sent_field ''msg_id''
          (snd (snd (sendGroupImageMessage rt base tbl accessToken target imageUrl (Some []) caption)))
        = [None])
   \<and> sent_field ''msg_seq'' (snd (sendChannelMessage rt accessToken target content (Some [])))
     = [None]
   \<and> sent_field ''msg_id'' (snd (sendChannelMessage rt accessToken target content (Some [])))
     = [None]"
proof -
  have empty: "Some [] = None \<or> Some ([] :: string) = Some []" by simp
  note numbered = numbered_send_falsy [OF empty, of rt base tbl accessToken target]
  note table = image_send_table_falsy [OF empty, of rt base tbl accessToken target imageUrl caption]
  have c2c_image:
    "sent_field ''msg_seq''
       (snd (snd (sendC2CImageMessage rt base tbl accessToken target imageUrl (Some []) caption)))
     = [None, Some (JNum 1)]
     \<and> sent_field ''msg_id''
       (snd (snd (sendC2CImageMessage rt base tbl accessToken target imageUrl (Some []) caption)))
     = [None, None]"
    if up: "fst (uploadC2CMedia rt accessToken target IMAGE imageUrl False) = Inr (JsonTyped u)"
    using image_send_falsy(1) [OF empty up] by simp
  have group_image:
    "sent_field ''msg_seq''
       (snd (snd (sendGroupImageMessage rt base tbl accessToken target imageUrl (Some []) caption)))
     = [None, Some (JNum 1)]
     \<and> sent_field ''msg_id''
       (snd (snd (sendGroupImageMessage rt base tbl accessToken target imageUrl (Some []) caption)))
     = [None, None]"
    if up: "fst (uploadGroupMedia rt accessToken target IMAGE imageUrl False) = Inr (JsonTyped u)"
    using image_send_falsy(2) [OF empty up] by simp
  have c2c_none:
    "sent_field ''msg_seq''
       (snd (snd (sendC2CImageMessage rt base tbl accessToken target imageUrl (Some []) caption)))
     = [None]
     \<and> sent_field ''msg_id''
       (snd (snd (sendC2CImageMessage rt base tbl accessToken target imageUrl (Some []) caption)))
     = [None]"
    if up: "fst (uploadC2CMedia rt accessToken target IMAGE imageUrl False) = Inl e
        \<or> fst (uploadC2CMedia rt accessToken target IMAGE imageUrl False) = Inr JsonNull"
    using image_send_not_uploaded [OF up] by simp
  have group_none:
    "sent_field ''msg_seq''
       (snd (snd (sendGroupImageMessage rt base tbl accessToken target imageUrl (Some []) caption)))
     = [None]
     \<and> sent_field ''msg_id''
       (snd (snd (sendGroupImageMessage rt base tbl accessToken target imageUrl (Some []) caption)))
     = [None]"
    if up: "fst (uploadGroupMedia rt accessToken target IMAGE imageUrl False) = Inl e
        \<or> fst (uploadGroupMedia rt accessToken target IMAGE imageUrl False) = Inr JsonNull"
    using group_image_send_not_uploaded [OF up] by simp
  have channel:
    "sent_field ''msg_seq'' (snd (sendChannelMessage rt accessToken target content (Some [])))
     = [None]"
    "sent_field ''msg_id'' (snd (sendChannelMessage rt accessToken target content (Some [])))
     = [None]"
    by (simp_all add: channel_send_fields msg_id_spread_simps)
  show ?thesis
    by (intro conjI impI empty_msgId_same empty_msgId_same_image numbered table c2c_image
          group_image c2c_none group_none channel)
qed

theorem empty_msgId_is_absent_msgId_witness:
  "fst (uploadC2CMedia
        (fixed_reply (Responded True
           (Parsed (JsonTyped \<lparr>message = None, code = None, file_info = ''f1''\<rparr>))))
        ''tok'' ''u1'' IMAGE ''http://img'' False)
      = Inr (JsonTyped \<lparr>message = None, code = None, file_info = ''f1''\<rparr>)
   \<and> sent_field ''msg_seq''
        (snd (snd (sendC2CImageMessage
           (fixed_reply (Responded True
              (Parsed (JsonTyped \<lparr>message = None, code = None, file_info = ''f1''\<rparr>))))
           100 [(''m1'', 3)] ''tok'' ''u1'' ''http://img'' (Some []) None)))
      = [None, Some (JNum 1)]
   \<and> sent_field ''msg_id''
        (snd (snd (sendC2CImageMessage
           (fixed_reply (Responded True
              (Parsed (JsonTyped \<lparr>message = None, code = None, file_info = ''f1''\<rparr>))))
           100 [(''m1'', 3)] ''tok'' ''u1'' ''http://img'' (Some []) None)))
      = [None, None]
   \<and> fst (snd (sendC2CImageMessage
           (fixed_reply (Responded True
              (Parsed (JsonTyped \<lparr>message = None, code = None, file_info = ''f1''\<rparr>))))
           100 [(''m1'', 3)] ''tok'' ''u1'' ''http://img'' (Some []) None))
      = [(''m1'', 3)]
   \<and> fst (uploadGroupMedia (fixed_reply (Responded True (Parsed JsonNull)) :: api_reply runtime)
        ''tok'' ''g1'' IMAGE ''http://img'' False)
      = Inr JsonNull
   \<and> sent_field ''msg_seq''
        (snd (snd (sendGroupImageMessage
           (fixed_reply (Responded True (Parsed JsonNull)) :: api_reply runtime)
           100 [(''m1'', 3)] ''tok'' ''g1'' ''http://img'' (Some []) None)))
      = [None]
   \<and> sent_field ''msg_seq''
        (snd (snd (sendC2CMessage (fixed_reply (Rejected (ErrorObj ''offline'')) :: api_reply runtime)
           100 [(''m1'', 3)] ''tok'' ''u1'' ''hi'' (Some []))))
      = [Some (JNum 1)]
   \<and> fst (snd (sendC2CMessage (fixed_reply (Rejected (ErrorObj ''offline'')) :: api_reply runtime)
           100 [(''m1'', 3)] ''tok'' ''u1'' ''hi'' (Some [])))
      = [(''m1'', 3)]"
proof -
  let ?off = "fixed_reply (Rejected (ErrorObj ''offline'')) :: api_reply runtime"
  let ?null = "fixed_reply (Responded True (Parsed JsonNull)) :: api_reply runtime"
  let ?u = "\<lparr>message = None, code = None, file_info = ''f1''\<rparr>"
  let ?on = "fixed_reply (Responded True (Parsed (JsonTyped ?u)))"
  note th = empty_msgId_is_absent_msgId [where base = 100 and tbl = "[(''m1'', 3)]"
      and accessToken = "''tok''" and imageUrl = "''http://img''" and caption = None]
  have up: "fst (uploadC2CMedia ?on ''tok'' ''u1'' IMAGE ''http://img'' False) = Inr (JsonTyped ?u)"
    by (simp add: uploadC2CMedia_def apiRequest_def fixed_reply_def Let_def)
  have nul: "fst (uploadGroupMedia ?null ''tok'' ''g1'' IMAGE ''http://img'' False) = Inr JsonNull"
    by (simp add: uploadGroupMedia_def apiRequest_def fixed_reply_def Let_def)
  note th_on = th [where rt = ?on and target = "''u1''" and u = ?u]
  have a: "sent_field ''msg_seq''
        (snd (snd (sendC2CImageMessage ?on 100 [(''m1'', 3)] ''tok'' ''u1'' ''http://img''
           (Some []) None)))
      = [None, Some (JNum 1)]"
    using th_on up by blast
  have b: "sent_field ''msg_id''
        (snd (snd (sendC2CImageMessage ?on 100 [(''m1'', 3)] ''tok'' ''u1'' ''http://img''
           (Some []) None)))
      = [None, None]"
    using th_on up by blast
  have c: "fst (snd (sendC2CImageMessage ?on 100 [(''m1'', 3)] ''tok'' ''u1'' ''http://img''
           (Some []) None))
      = [(''m1'', 3)]"
    using th_on by blast
  have d: "sent_field ''msg_seq''
        (snd (snd (sendGroupImageMessage ?null 100 [(''m1'', 3)] ''tok'' ''g1'' ''http://img''
           (Some []) None)))
      = [None]"
    using th [where rt = ?null and target = "''g1''"] nul by blast
  note th_off = th [where rt = ?off and target = "''u1''" and content = "''hi''"]
  have e: "sent_field ''msg_seq''
        (snd (snd (sendC2CMessage ?off 100 [(''m1'', 3)] ''tok'' ''u1'' ''hi'' (Some []))))
      = [Some (JNum 1)]"
    using th_off by blast
  have f: "fst (snd (sendC2CMessage ?off 100 [(''m1'', 3)] ''tok'' ''u1'' ''hi'' (Some [])))
      = [(''m1'', 3)]"
    using th_off by blast
  show ?thesis by (intro conjI up a b c nul d e f)
qed

text \<open>
  The claim as stated fails for the channel send, which takes an optional \<open>msgId\<close> too:
  with the empty string its body has no \<open>msg_seq\<close>, where the claim has \<open>msg_seq\<close> 1.
\<close>

theorem channel_send_empty_msgId_counterexample:
  "sent_field ''msg_seq''
      (snd (sendChannelMessage (fixed_reply (Rejected (ErrorObj ''offline'')) :: api_reply runtime)
         ''tok'' ''c1'' ''hi'' (Some [])))
     = [None]"
  by (simp add: channel_send_fields)

end
